theory Spec2Isabelle
  imports Complex_Main "HOL-Library.Log_Nat"
begin

section \<open>Binary64 arithmetic\<close>

text \<open>
  The scoring code computes with Python floats (IEEE 754 binary64, round to nearest, ties
  to even).  A finite float is modelled by the rational number it denotes; \<open>fl\<close> rounds a
  rational to the nearest binary64 value: 53 significant bits in the normal range, a fixed
  spacing of \<open>2 powi (- 1074)\<close> in the subnormal range.  Infinities and NaN have no
  rational value; the operations below say where Python raises instead of producing one.
\<close>

definition ilog2 :: "rat \<Rightarrow> int" where
  "ilog2 x = (case quotient_of x of (p, q) \<Rightarrow>
     (let d = bitlen p - bitlen q in if 2 powi d \<le> x then d else d - 1))"

definition rne :: "rat \<Rightarrow> int" where
  "rne x = (let f = \<lfloor>x\<rfloor>; r = x - of_int f in
     if r < 1 / 2 then f else if 1 / 2 < r then f + 1 else if even f then f else f + 1)"

definition expo :: "rat \<Rightarrow> int" where
  "expo x = max (ilog2 x) (- 1022)"

definition ulp :: "rat \<Rightarrow> rat" where
  "ulp x = 2 powi (expo x - 52)"

definition fl :: "rat \<Rightarrow> rat" where
  "fl x = (if x = 0 then 0 else sgn x * of_int (rne (\<bar>x\<bar> / ulp \<bar>x\<bar>)) * ulp \<bar>x\<bar>)"

definition fdiv :: "rat \<Rightarrow> rat \<Rightarrow> rat" where
  "fdiv x y = fl (x / y)"

definition fmul :: "rat \<Rightarrow> rat \<Rightarrow> rat" where
  "fmul x y = fl (x * y)"

section \<open>Python numbers and exceptions\<close>

text \<open>
  The exceptions that the modelled code can raise.  \<open>IntegrityError\<close> is what a commit
  raises when the database rejects a row: a primary key that is already taken, or a
  foreign key without a row to refer to.
\<close>

datatype py_error =
  ZeroDivisionError | OverflowError | AttributeError | KeyError | ValueError | IntegrityError

text \<open>A Python number is an unbounded \<open>int\<close> or a \<open>float\<close>.\<close>

datatype pynum = PInt int | PFloat rat

fun num_val :: "pynum \<Rightarrow> rat" where
  "num_val (PInt i) = of_int i"
| "num_val (PFloat r) = r"

text \<open>
  \<open>min(a, b)\<close> keeps \<open>a\<close> unless \<open>b < a\<close>; \<open>max(a, b)\<close> keeps \<open>a\<close> unless \<open>b > a\<close>.
  Python compares an int with a float by exact value.
\<close>

definition py_min :: "pynum \<Rightarrow> pynum \<Rightarrow> pynum" where
  "py_min a b = (if num_val b < num_val a then b else a)"

definition py_max :: "pynum \<Rightarrow> pynum \<Rightarrow> pynum" where
  "py_max a b = (if num_val a < num_val b then b else a)"

text \<open>
  Conversion of an operand to float: an int is rounded, and one that rounds to
  \<open>2 ^ 1024\<close> or beyond raises \<open>OverflowError\<close>.
\<close>

fun to_float :: "pynum \<Rightarrow> py_error + rat" where
  "to_float (PFloat r) = Inr r"
| "to_float (PInt i) =
     (if 2 ^ 1024 \<le> fl \<bar>of_int i\<bar> then Inl OverflowError else Inr (fl (of_int i)))"

text \<open>
  True division \<open>a / b\<close>.  Two ints are divided exactly and the quotient is rounded once;
  otherwise both operands are converted to float first.  A float quotient of magnitude
  \<open>2 ^ 1024\<close> or more would be Python's \<open>inf\<close>; the scoring code never divides a float by
  a smaller positive number, so that case does not arise there.
\<close>

fun py_truediv :: "pynum \<Rightarrow> pynum \<Rightarrow> py_error + rat" where
  "py_truediv (PInt a) (PInt b) =
     (if b = 0 then Inl ZeroDivisionError
      else (let r = fl (of_int a / of_int b)
            in if 2 ^ 1024 \<le> \<bar>r\<bar> then Inl OverflowError else Inr r))"
| "py_truediv a b =
     (case to_float a of
        Inl e \<Rightarrow> Inl e
      | Inr x \<Rightarrow>
          (case to_float b of
             Inl e \<Rightarrow> Inl e
           | Inr y \<Rightarrow> if y = 0 then Inl ZeroDivisionError else Inr (fdiv x y)))"

text \<open>\<open>int(x)\<close> truncates a float toward zero.\<close>

definition py_int :: "rat \<Rightarrow> int" where
  "py_int x = (if 0 \<le> x then \<lfloor>x\<rfloor> else \<lceil>x\<rceil>)"

text \<open>
  \<open>round(x, 1)\<close> on a float: the exact value of \<open>x\<close> is rounded to one decimal (ties to
  even) and the decimal is converted back to the nearest float.  On an int it is the
  identity.
\<close>

fun py_round1 :: "pynum \<Rightarrow> pynum" where
  "py_round1 (PInt i) = PInt i"
| "py_round1 (PFloat x) = PFloat (fl (of_int (rne (x * 10)) / 10))"

text \<open>\<open>str(n)\<close> for an int, as used by the f-strings.\<close>

definition digit_char :: "nat \<Rightarrow> char" where
  "digit_char d = char_of (48 + d mod 10)"

fun str_nat :: "nat \<Rightarrow> string" where
  "str_nat n = (if n < 10 then [digit_char n] else str_nat (n div 10) @ [digit_char (n mod 10)])"

declare str_nat.simps [simp del]

definition str_int :: "int \<Rightarrow> string" where
  "str_int i = (if i < 0 then CHR ''-'' # str_nat (nat (- i)) else str_nat (nat i))"




section \<open>Configuration (config.py)\<close>

definition BASE_POINTS :: int where
  "BASE_POINTS = 1000"

text \<open>The literal \<open>0.3\<close> denotes the binary64 value nearest to 3/10.\<close>

definition SPEED_PENALTY_MULTIPLIER :: rat where
  "SPEED_PENALTY_MULTIPLIER = fl (3 / 10)"

definition SESSION_CODE_LENGTH :: nat where
  "SESSION_CODE_LENGTH = 5"

section \<open>Data model (database/models)\<close>

text \<open>
  Primary keys are UUIDs, modelled as natural numbers; a \<open>DateTime\<close> is a naive UTC
  timestamp with microsecond resolution, modelled as the number of microseconds since a
  fixed origin.  Columns that none of the modelled operations reads (texts, e-mail,
  password hash, role) are left out.  \<open>time_limit\<close> is always given a value when a question
  is created or updated, so it is an \<open>int\<close> here.  The models declare no uniqueness
  constraint besides the primary keys, the session code and the user name; where a
  property needs another one (one participant row per session and student, one answer row
  per session, student and question, one question per quiz and order), it is a hypothesis
  of the theorem.  The foreign keys of \<open>session_participants\<close> and \<open>student_answers\<close> are
  checked when a row is written, see \<open>add_participant\<close> and \<open>create_answer\<close>.
\<close>

type_synonym uuid = nat
type_synonym datetime = int

datatype session_status = PENDING | ACTIVE | CLOSED

record user =
  u_id :: uuid
  username :: string

record question =
  q_id :: uuid
  q_quiz_id :: uuid
  question_order :: int
  time_limit :: int

record question_option =
  qo_id :: uuid
  qo_question_id :: uuid
  option_order :: int
  is_correct :: bool

record quiz_session =
  qs_id :: uuid
  qs_quiz_id :: uuid
  instructor_id :: uuid
  session_code :: string
  status :: session_status
  current_question_id :: "uuid option"
  start_time :: "datetime option"
  end_time :: "datetime option"
  created_at :: datetime

record session_participant =
  sp_id :: uuid
  sp_session_id :: uuid
  sp_student_id :: uuid
  joined_at :: datetime

record student_answer =
  sa_id :: uuid
  sa_session_id :: uuid
  sa_student_id :: uuid
  sa_question_id :: uuid
  option_id :: "uuid option"
  submitted_at :: datetime

text \<open>
  The database: one list of rows per table.  The order of a list is the order in which a
  query without \<open>ORDER BY\<close> returns the rows; the database promises nothing about it, and
  the theorems below do not rely on it: they speak about the rows of a table as a set, or
  about the rows that a call adds.
\<close>

record db =
  users :: "user list"
  questions :: "question list"
  question_options :: "question_option list"
  quiz_sessions :: "quiz_session list"
  session_participants :: "session_participant list"
  student_answers :: "student_answer list"

text \<open>
  \<open>query.filter(P).first()\<close> is \<^const>\<open>find\<close>, \<open>query.filter(P).all()\<close> is
  \<^const>\<open>filter\<close>.  A row object fetched with \<open>first()\<close>, mutated and committed changes
  that one row: \<open>update_first\<close>.  A call that raises has committed nothing: it returns the
  exception and no database, and the caller is left with the database it had.
\<close>

fun update_first :: "('a \<Rightarrow> bool) \<Rightarrow> ('a \<Rightarrow> 'a) \<Rightarrow> 'a list \<Rightarrow> 'a list" where
  "update_first P f [] = []"
| "update_first P f (x # xs) = (if P x then f x # xs else x # update_first P f xs)"

text \<open>ORM relationships: \<open>answer.selected_option\<close>, \<open>answer.question\<close>, \<open>participant.student\<close>.\<close>

definition selected_option :: "db \<Rightarrow> student_answer \<Rightarrow> question_option option" where
  "selected_option d answer =
     (case option_id answer of
        None \<Rightarrow> None
      | Some oid \<Rightarrow> find (\<lambda>opt. qo_id opt = oid) (question_options d))"

definition answer_question :: "db \<Rightarrow> student_answer \<Rightarrow> question option" where
  "answer_question d answer = find (\<lambda>q. q_id q = sa_question_id answer) (questions d)"

definition participant_student :: "db \<Rightarrow> session_participant \<Rightarrow> user option" where
  "participant_student d participant = find (\<lambda>u. u_id u = sp_student_id participant) (users d)"

text \<open>Results of service calls: the \<open>{'success': ..., 'message': ...}\<close> dictionaries.\<close>

datatype 'a result = Failure string | Success 'a

section \<open>Data access layers\<close>

subsection \<open>QuestionDataAccess\<close>

text \<open>
  \<open>ORDER BY question_order\<close>.  The order of the result is fixed by the query only where
  the orders of the quiz's questions are pairwise different; among questions of equal order
  the database is free, and the list below (which keeps them in table order) is then one of
  the possible results.  The statements below about the last question of a quiz and about
  the order of the current question assume that the orders of the quiz's questions are
  distinct.
\<close>

definition get_questions_by_quiz :: "db \<Rightarrow> uuid \<Rightarrow> question list" where
  "get_questions_by_quiz d quiz_id =
     sort_key question_order (filter (\<lambda>q. q_quiz_id q = quiz_id) (questions d))"

subsection \<open>SessionDataAccess\<close>

definition get_session_by_id :: "db \<Rightarrow> uuid \<Rightarrow> quiz_session option" where
  "get_session_by_id d session_id = find (\<lambda>s. qs_id s = session_id) (quiz_sessions d)"

definition get_session_by_code :: "db \<Rightarrow> string \<Rightarrow> quiz_session option" where
  "get_session_by_code d code = find (\<lambda>s. session_code s = code) (quiz_sessions d)"

definition session_code_exists :: "db \<Rightarrow> string \<Rightarrow> bool" where
  "session_code_exists d code = (get_session_by_code d code \<noteq> None)"

definition stamp :: "datetime \<Rightarrow> session_status \<Rightarrow> quiz_session \<Rightarrow> quiz_session" where
  "stamp now new_status session =
     (let session = session\<lparr>status := new_status\<rparr>
      in if new_status = ACTIVE \<and> start_time session = None
           then session\<lparr>start_time := Some now\<rparr>
         else if new_status = CLOSED \<and> end_time session = None
           then session\<lparr>end_time := Some now\<rparr>
         else session)"

definition update_status ::
  "db \<Rightarrow> datetime \<Rightarrow> uuid \<Rightarrow> session_status \<Rightarrow> db \<times> quiz_session option" where
  "update_status d now session_id new_status =
     (case get_session_by_id d session_id of
        None \<Rightarrow> (d, None)
      | Some session \<Rightarrow>
          (d\<lparr>quiz_sessions :=
               update_first (\<lambda>s. qs_id s = session_id) (stamp now new_status) (quiz_sessions d)\<rparr>,
           Some (stamp now new_status session)))"

definition update_current_question :: "db \<Rightarrow> uuid \<Rightarrow> uuid \<Rightarrow> db \<times> quiz_session option" where
  "update_current_question d session_id question_id =
     (case get_session_by_id d session_id of
        None \<Rightarrow> (d, None)
      | Some session \<Rightarrow>
          (d\<lparr>quiz_sessions :=
               update_first (\<lambda>s. qs_id s = session_id)
                 (\<lambda>s. s\<lparr>current_question_id := Some question_id\<rparr>) (quiz_sessions d)\<rparr>,
           Some (session\<lparr>current_question_id := Some question_id\<rparr>)))"

subsection \<open>ParticipantDataAccess\<close>

text \<open>
  \<open>add_participant\<close> inserts a row with a fresh primary key (\<open>new_id\<close> is the value drawn
  by \<open>uuid.uuid4\<close>) and the current time.  The commit raises \<open>IntegrityError\<close> when the key
  is taken or when \<open>session_id\<close> or \<open>student_id\<close> refers to no row of \<open>quiz_sessions\<close> or
  \<open>users\<close>.
\<close>

definition add_participant ::
  "db \<Rightarrow> datetime \<Rightarrow> uuid \<Rightarrow> uuid \<Rightarrow> uuid \<Rightarrow> py_error + db \<times> session_participant" where
  "add_participant d now new_id session_id student =
     (let participant = \<lparr>sp_id = new_id, sp_session_id = session_id, sp_student_id = student,
                          joined_at = now\<rparr>
      in if new_id \<in> set (map sp_id (session_participants d))
            \<or> session_id \<notin> set (map qs_id (quiz_sessions d))
            \<or> student \<notin> set (map u_id (users d))
         then Inl IntegrityError
         else Inr (d\<lparr>session_participants := session_participants d @ [participant]\<rparr>,
                   participant))"

definition get_participants_by_session :: "db \<Rightarrow> uuid \<Rightarrow> session_participant list" where
  "get_participants_by_session d session_id =
     filter (\<lambda>p. sp_session_id p = session_id) (session_participants d)"

definition get_participant :: "db \<Rightarrow> uuid \<Rightarrow> uuid \<Rightarrow> session_participant option" where
  "get_participant d session_id student =
     find (\<lambda>p. sp_session_id p = session_id \<and> sp_student_id p = student) (session_participants d)"

definition is_participant :: "db \<Rightarrow> uuid \<Rightarrow> uuid \<Rightarrow> bool" where
  "is_participant d session_id student = (get_participant d session_id student \<noteq> None)"

subsection \<open>ScoringDataAccess\<close>

definition answer_key :: "uuid \<Rightarrow> uuid \<Rightarrow> uuid \<Rightarrow> student_answer \<Rightarrow> bool" where
  "answer_key session_id student question_id a =
     (sa_session_id a = session_id \<and> sa_student_id a = student \<and> sa_question_id a = question_id)"

definition get_student_answer :: "db \<Rightarrow> uuid \<Rightarrow> uuid \<Rightarrow> uuid \<Rightarrow> student_answer option" where
  "get_student_answer d session_id student question_id =
     find (answer_key session_id student question_id) (student_answers d)"

text \<open>
  The nullable foreign key \<open>option_id\<close>: \<open>None\<close> refers to nothing, an id must be the id
  of a row of \<open>question_options\<close>.
\<close>

definition option_exists :: "db \<Rightarrow> uuid option \<Rightarrow> bool" where
  "option_exists d opt =
     (case opt of None \<Rightarrow> True | Some oid \<Rightarrow> oid \<in> set (map qo_id (question_options d)))"

text \<open>
  \<open>create_answer\<close> inserts a row with a fresh primary key and the current time.  The commit
  raises \<open>IntegrityError\<close> when the key is taken or when the session, the student, the
  question or a non-null option refers to no row.
\<close>

definition create_answer ::
  "db \<Rightarrow> datetime \<Rightarrow> uuid \<Rightarrow> uuid \<Rightarrow> uuid \<Rightarrow> uuid \<Rightarrow> uuid option
     \<Rightarrow> py_error + db \<times> student_answer" where
  "create_answer d now new_id session_id student question_id opt =
     (let answer = \<lparr>sa_id = new_id, sa_session_id = session_id, sa_student_id = student,
                     sa_question_id = question_id, option_id = opt, submitted_at = now\<rparr>
      in if new_id \<in> set (map sa_id (student_answers d))
            \<or> session_id \<notin> set (map qs_id (quiz_sessions d))
            \<or> student \<notin> set (map u_id (users d))
            \<or> question_id \<notin> set (map q_id (questions d))
            \<or> \<not> option_exists d opt
         then Inl IntegrityError
         else Inr (d\<lparr>student_answers := student_answers d @ [answer]\<rparr>, answer))"

text \<open>
  \<open>submit_answer\<close>: the row found for the key is overwritten in place (the option and the
  time of submission), otherwise a row is created.  The update writes the option only when
  it differs from the stored one, and the database then checks the new reference.
\<close>

definition submit_answer ::
  "db \<Rightarrow> datetime \<Rightarrow> uuid \<Rightarrow> uuid \<Rightarrow> uuid \<Rightarrow> uuid \<Rightarrow> uuid option
     \<Rightarrow> py_error + db \<times> student_answer" where
  "submit_answer d now new_id session_id student question_id opt =
     (case get_student_answer d session_id student question_id of
        Some existing \<Rightarrow>
          if opt \<noteq> option_id existing \<and> \<not> option_exists d opt then Inl IntegrityError
          else Inr (d\<lparr>student_answers :=
                        update_first (answer_key session_id student question_id)
                          (\<lambda>a. a\<lparr>option_id := opt, submitted_at := now\<rparr>) (student_answers d)\<rparr>,
                    existing\<lparr>option_id := opt, submitted_at := now\<rparr>)
      | None \<Rightarrow> create_answer d now new_id session_id student question_id opt)"

text \<open>
  All answers of a session, in the order of the table (the query has no \<open>ORDER BY\<close>, so
  the database may return them in any order, an updated row for instance after the others).
\<close>

definition get_answers_by_session :: "db \<Rightarrow> uuid \<Rightarrow> student_answer list" where
  "get_answers_by_session d session_id =
     filter (\<lambda>a. sa_session_id a = session_id) (student_answers d)"

section \<open>Session code generation (shared/session\_code.py)\<close>

text \<open>
  \<open>random.choices(string.digits, k=length)\<close> is driven by an arbitrary source of
  randomness: \<open>rng a j\<close> picks the \<open>j\<close>-th digit of the code drawn in attempt \<open>a\<close>.  The
  uniqueness check is a parameter \<open>code_exists\<close>; the loop returns the final value of its counter
  \<open>attempts\<close> together with the code, or with the \<open>ValueError\<close> raised after the loop.
\<close>

definition random_code :: "(nat \<Rightarrow> nat \<Rightarrow> nat) \<Rightarrow> nat \<Rightarrow> nat \<Rightarrow> string" where
  "random_code rng a len = map (\<lambda>j. digit_char (rng a j)) [0..<len]"

function code_loop ::
  "(string \<Rightarrow> bool) \<Rightarrow> (nat \<Rightarrow> nat \<Rightarrow> nat) \<Rightarrow> nat \<Rightarrow> nat \<Rightarrow> nat \<Rightarrow> nat \<times> (py_error + string)" where
  "code_loop code_exists rng len max_attempts attempts =
     (if attempts < max_attempts then
        (let code = random_code rng attempts len
         in if \<not> code_exists code then (attempts, Inr code)
            else code_loop code_exists rng len max_attempts (attempts + 1))
      else (attempts, Inl ValueError))"
  by pat_completeness auto
termination
  by (relation "measure (\<lambda>(code_exists, rng, len, max_attempts, attempts). max_attempts - attempts)") auto

declare code_loop.simps [simp del]

definition max_attempts :: nat where
  "max_attempts = 100"

definition generate_session_code_with ::
  "(string \<Rightarrow> bool) \<Rightarrow> (nat \<Rightarrow> nat \<Rightarrow> nat) \<Rightarrow> nat \<Rightarrow> nat \<times> (py_error + string)" where
  "generate_session_code_with code_exists rng len = code_loop code_exists rng len max_attempts 0"

definition generate_session_code :: "db \<Rightarrow> (nat \<Rightarrow> nat \<Rightarrow> nat) \<Rightarrow> nat \<Rightarrow> py_error + string" where
  "generate_session_code d rng len = snd (generate_session_code_with (session_code_exists d) rng len)"

section \<open>SessionService (features/session/session\_service.py)\<close>

definition start_session :: "db \<Rightarrow> datetime \<Rightarrow> uuid \<Rightarrow> db \<times> quiz_session result" where
  "start_session d now session_id =
     (case get_session_by_id d session_id of
        None \<Rightarrow> (d, Failure ''Session not found'')
      | Some session \<Rightarrow>
          (case get_questions_by_quiz d (qs_quiz_id session) of
             [] \<Rightarrow> (d, Failure ''Quiz has no questions'')
           | first # _ \<Rightarrow>
               (let d1 = fst (update_status d now session_id ACTIVE);
                    d2 = fst (update_current_question d1 session_id (q_id first))
                in case get_session_by_id d2 session_id of
                     None \<Rightarrow> (d2, Success session)
                   | Some refreshed \<Rightarrow> (d2, Success refreshed))))"

definition end_session :: "db \<Rightarrow> datetime \<Rightarrow> uuid \<Rightarrow> db \<times> quiz_session option" where
  "end_session d now session_id = update_status d now session_id CLOSED"

text \<open>
  The search loop of \<open>next_question\<close>: the index of the first question whose id is the
  current one, \<open>-1\<close> when the loop ends without a match.
\<close>

fun find_current_idx :: "uuid \<Rightarrow> question list \<Rightarrow> int \<Rightarrow> int" where
  "find_current_idx cur [] idx = - 1"
| "find_current_idx cur (q # qs) idx =
     (if q_id q = cur then idx else find_current_idx cur qs (idx + 1))"

definition current_idx :: "quiz_session \<Rightarrow> question list \<Rightarrow> int" where
  "current_idx session qs =
     (case current_question_id session of
        None \<Rightarrow> - 1
      | Some cur \<Rightarrow> find_current_idx cur qs 0)"

definition next_question :: "db \<Rightarrow> uuid \<Rightarrow> db \<times> question result" where
  "next_question d session_id =
     (case get_session_by_id d session_id of
        None \<Rightarrow> (d, Failure ''Session not found'')
      | Some session \<Rightarrow>
          (let qs = get_questions_by_quiz d (qs_quiz_id session);
               next_idx = current_idx session qs + 1
           in if int (length qs) \<le> next_idx then (d, Failure ''No more questions'')
              else (let next = qs ! nat next_idx
                    in (fst (update_current_question d session_id (q_id next)), Success next))))"

text \<open>
  \<open>join_session\<close> does not catch the exception of \<open>add_participant\<close>: when the insert is
  rejected, the call raises and no participant is stored.
\<close>

definition join_session ::
  "db \<Rightarrow> datetime \<Rightarrow> uuid \<Rightarrow> string \<Rightarrow> uuid
     \<Rightarrow> py_error + db \<times> (string \<times> quiz_session) result" where
  "join_session d now new_id code student =
     (case get_session_by_code d code of
        None \<Rightarrow> Inr (d, Failure ''Invalid session code'')
      | Some session \<Rightarrow>
          if status session = CLOSED then Inr (d, Failure ''This session has ended'')
          else if is_participant d (qs_id session) student
            then Inr (d, Success (''Already joined'', session))
          else (case add_participant d now new_id (qs_id session) student of
                  Inl e \<Rightarrow> Inl e
                | Inr (d', participant) \<Rightarrow> Inr (d', Success (''Joined successfully'', session))))"

text \<open>
  Sequences of lifecycle calls on one session, and the position of its current question:
  \<open>current_order\<close> is the order of the current question when that question is in the
  quiz's list.
\<close>

datatype lifecycle_op = Advance | End datetime

fun apply_op :: "uuid \<Rightarrow> lifecycle_op \<Rightarrow> db \<Rightarrow> db" where
  "apply_op session_id Advance d = fst (next_question d session_id)"
| "apply_op session_id (End now) d = fst (end_session d now session_id)"

definition current_order :: "db \<Rightarrow> uuid \<Rightarrow> int option" where
  "current_order d session_id =
     (case get_session_by_id d session_id of
        None \<Rightarrow> None
      | Some session \<Rightarrow>
          (case current_question_id session of
             None \<Rightarrow> None
           | Some cur \<Rightarrow>
               map_option question_order
                 (find (\<lambda>q. q_id q = cur) (get_questions_by_quiz d (qs_quiz_id session)))))"

fun not_before :: "int option \<Rightarrow> int option \<Rightarrow> bool" where
  "not_before None later = True"
| "not_before (Some a) (Some b) = (a \<le> b)"
| "not_before (Some a) None = False"

fun strictly_before :: "int option \<Rightarrow> int \<Rightarrow> bool" where
  "strictly_before None b = True"
| "strictly_before (Some a) b = (a < b)"

section \<open>ScoringService (features/scoring/scoring\_service.py)\<close>

text \<open>\<open>timedelta.total_seconds()\<close>: the microseconds divided by \<open>10**6\<close>, rounded once.\<close>

definition total_seconds :: "int \<Rightarrow> rat" where
  "total_seconds micros = fl (of_int micros / 10 ^ 6)"

definition answered_correctly :: "db \<Rightarrow> student_answer \<Rightarrow> bool" where
  "answered_correctly d answer =
     (case selected_option d answer of None \<Rightarrow> False | Some opt \<Rightarrow> is_correct opt)"

definition clamped_time :: "student_answer \<Rightarrow> datetime \<Rightarrow> int \<Rightarrow> pynum" where
  "clamped_time answer question_start_time limit =
     py_max (PInt 0)
       (py_min (PFloat (total_seconds (submitted_at answer - question_start_time))) (PInt limit))"

definition calculate_answer_score ::
  "db \<Rightarrow> student_answer \<Rightarrow> datetime \<Rightarrow> int \<Rightarrow> py_error + int" where
  "calculate_answer_score d answer question_start_time limit =
     (if \<not> answered_correctly d answer then Inr 0
      else
        (let time_taken = clamped_time answer question_start_time limit
         in case py_truediv time_taken (PInt limit) of
              Inl e \<Rightarrow> Inl e
            | Inr q \<Rightarrow>
                (let speed_penalty =
                       py_int (fmul (fmul q (fl (of_int BASE_POINTS))) SPEED_PENALTY_MULTIPLIER);
                     score = BASE_POINTS - speed_penalty
                 in Inr (max 0 score))))"

text \<open>
  The scoring rule in the words of the specification: the elapsed time is the submission
  delay in seconds clamped to \<open>[0, time_limit]\<close>, the penalty is
  \<open>floor(elapsed / time_limit * BASE_POINTS * SPEED_PENALTY_MULTIPLIER)\<close> evaluated from
  left to right in binary64 arithmetic, and the score is \<open>max(0, BASE_POINTS - penalty)\<close>.
\<close>

definition elapsed :: "student_answer \<Rightarrow> datetime \<Rightarrow> int \<Rightarrow> rat" where
  "elapsed answer question_start_time limit =
     max 0 (min (total_seconds (submitted_at answer - question_start_time)) (of_int limit))"

definition speed_penalty_spec :: "rat \<Rightarrow> int \<Rightarrow> int" where
  "speed_penalty_spec e limit = \<lfloor>fmul (fmul (fdiv e (of_int limit)) 1000) (fl (3 / 10))\<rfloor>"

definition score_spec :: "rat \<Rightarrow> int \<Rightarrow> int" where
  "score_spec e limit = max 0 (1000 - speed_penalty_spec e limit)"

text \<open>One row of the leaderboard: the dictionary built per participant, then its rank.\<close>

record score_entry =
  student_id :: uuid
  student_name :: string
  total_points :: int
  correct_count :: int
  total_questions :: int
  answered_count :: int
  percent_correct :: pynum
  participation :: string

record leaderboard_entry = score_entry +
  rank :: int

text \<open>The inner loop over one student's answers, accumulating points and correct answers.\<close>

definition question_start :: "quiz_session \<Rightarrow> datetime" where
  "question_start session = (case start_time session of Some t \<Rightarrow> t | None \<Rightarrow> created_at session)"

fun score_answers ::
  "db \<Rightarrow> quiz_session \<Rightarrow> student_answer list \<Rightarrow> int \<times> int \<Rightarrow> py_error + int \<times> int" where
  "score_answers d session [] acc = Inr acc"
| "score_answers d session (answer # rest) (points, correct) =
     (case answer_question d answer of
        None \<Rightarrow> Inl AttributeError
      | Some q \<Rightarrow>
          (case calculate_answer_score d answer (question_start session) (time_limit q) of
             Inl e \<Rightarrow> Inl e
           | Inr score \<Rightarrow>
               score_answers d session rest
                 (points + score,
                  if answered_correctly d answer then correct + 1 else correct)))"

definition percent_of :: "int \<Rightarrow> int \<Rightarrow> pynum" where
  "percent_of correct answered =
     (if 0 < answered
      then PFloat (fmul (fl (of_int correct / of_int answered)) (fl 100))
      else PInt 0)"

definition score_participant ::
  "db \<Rightarrow> quiz_session \<Rightarrow> int \<Rightarrow> student_answer list \<Rightarrow> session_participant
     \<Rightarrow> py_error + score_entry" where
  "score_participant d session n_questions all_answers participant =
     (let student_answers = filter (\<lambda>a. sa_student_id a = sp_student_id participant) all_answers
      in case score_answers d session student_answers (0, 0) of
           Inl e \<Rightarrow> Inl e
         | Inr (points, correct) \<Rightarrow>
             (let answered = int (length student_answers)
              in case participant_student d participant of
                   None \<Rightarrow> Inl AttributeError
                 | Some student \<Rightarrow>
                     Inr \<lparr>student_id = sp_student_id participant,
                          student_name = username student,
                          total_points = points,
                          correct_count = correct,
                          total_questions = n_questions,
                          answered_count = answered,
                          percent_correct = py_round1 (percent_of correct answered),
                          participation = str_int answered @ ''/'' @ str_int n_questions\<rparr>))"

text \<open>
  \<open>student_scores\<close> is a dictionary keyed by student id: assigning to a key that is
  present replaces the value and keeps the key's position.
\<close>

fun dict_set :: "'k \<Rightarrow> 'v \<Rightarrow> ('k \<times> 'v) list \<Rightarrow> ('k \<times> 'v) list" where
  "dict_set k v [] = [(k, v)]"
| "dict_set k v (p # ps) = (if fst p = k then (k, v) # ps else p # dict_set k v ps)"

fun build_scores ::
  "db \<Rightarrow> quiz_session \<Rightarrow> int \<Rightarrow> student_answer list \<Rightarrow> session_participant list
     \<Rightarrow> (uuid \<times> score_entry) list \<Rightarrow> py_error + (uuid \<times> score_entry) list" where
  "build_scores d session n all_answers [] scores = Inr scores"
| "build_scores d session n all_answers (participant # rest) scores =
     (case score_participant d session n all_answers participant of
        Inl e \<Rightarrow> Inl e
      | Inr entry \<Rightarrow>
          build_scores d session n all_answers rest
            (dict_set (sp_student_id participant) entry scores))"

text \<open>
  \<open>sorted(..., key=lambda x: (x['total_points'], x['percent_correct']), reverse=True)\<close>:
  tuples compare lexicographically, and the sort is stable (entries with equal keys keep
  their order), also with \<open>reverse=True\<close>.
\<close>

definition sort_key_of :: "'a score_entry_scheme \<Rightarrow> int \<times> rat" where
  "sort_key_of e = (total_points e, num_val (percent_correct e))"

fun tuple_le :: "int \<times> rat \<Rightarrow> int \<times> rat \<Rightarrow> bool" where
  "tuple_le (a1, b1) (a2, b2) = (a1 < a2 \<or> (a1 = a2 \<and> b1 \<le> b2))"

fun insort_desc :: "score_entry \<Rightarrow> score_entry list \<Rightarrow> score_entry list" where
  "insort_desc x [] = [x]"
| "insort_desc x (y # ys) =
     (if tuple_le (sort_key_of y) (sort_key_of x) then x # y # ys else y # insort_desc x ys)"

definition sorted_reverse :: "score_entry list \<Rightarrow> score_entry list" where
  "sorted_reverse xs = foldr insort_desc xs []"

fun add_ranks :: "int \<Rightarrow> score_entry list \<Rightarrow> leaderboard_entry list" where
  "add_ranks idx [] = []"
| "add_ranks idx (e # es) = score_entry.extend e \<lparr>rank = idx\<rparr> # add_ranks (idx + 1) es"

definition calculate_leaderboard :: "db \<Rightarrow> quiz_session \<Rightarrow> py_error + leaderboard_entry list" where
  "calculate_leaderboard d session =
     (let participants = get_participants_by_session d (qs_id session);
          qs = get_questions_by_quiz d (qs_quiz_id session);
          n_questions = int (length qs)
      in if n_questions = 0 then Inr []
         else
           (let all_answers = get_answers_by_session d (qs_id session)
            in case build_scores d session n_questions all_answers participants [] of
                 Inl e \<Rightarrow> Inl e
               | Inr student_scores \<Rightarrow>
                   Inr (add_ranks 1 (sorted_reverse (map snd student_scores)))))"









section \<open>Example data\<close>

text \<open>
  The scenario of the specification: a quiz with two questions of 30 seconds each, one
  participant who answers the first question correctly 3 seconds after the session start
  and the second one wrongly.
\<close>

definition example_answer :: student_answer where
  "example_answer = \<lparr>sa_id = 71, sa_session_id = 51, sa_student_id = 21, sa_question_id = 31,
                      option_id = Some 41, submitted_at = 3000000\<rparr>"

definition example_wrong_answer :: student_answer where
  "example_wrong_answer = \<lparr>sa_id = 72, sa_session_id = 51, sa_student_id = 21,
                            sa_question_id = 32, option_id = Some 44, submitted_at = 40000000\<rparr>"

definition example_session :: quiz_session where
  "example_session = \<lparr>qs_id = 51, qs_quiz_id = 81, instructor_id = 91, session_code = ''12345'',
                       status = ACTIVE, current_question_id = Some 31, start_time = Some 0,
                       end_time = None, created_at = - 5000000\<rparr>"

definition example_db :: db where
  "example_db =
     \<lparr>users = [\<lparr>u_id = 21, username = ''ann''\<rparr>],
      questions = [\<lparr>q_id = 31, q_quiz_id = 81, question_order = 1, time_limit = 30\<rparr>,
                   \<lparr>q_id = 32, q_quiz_id = 81, question_order = 2, time_limit = 30\<rparr>],
      question_options =
        [\<lparr>qo_id = 41, qo_question_id = 31, option_order = 1, is_correct = True\<rparr>,
         \<lparr>qo_id = 42, qo_question_id = 31, option_order = 2, is_correct = False\<rparr>,
         \<lparr>qo_id = 43, qo_question_id = 32, option_order = 1, is_correct = True\<rparr>,
         \<lparr>qo_id = 44, qo_question_id = 32, option_order = 2, is_correct = False\<rparr>],
      quiz_sessions = [example_session],
      session_participants =
        [\<lparr>sp_id = 61, sp_session_id = 51, sp_student_id = 21, joined_at = - 1000000\<rparr>],
      student_answers = [example_answer, example_wrong_answer]\<rparr>"



text \<open>
  A class room: four users, two quizzes whose questions are stored in no particular
  order, three sessions (one ACTIVE, one PENDING, one CLOSED) and participants of two of
  them.  In session 51 ann answers the first question correctly after 3 seconds, bob does
  the same and answers the second question wrongly, and cy answers nothing; dee takes part
  in session 52.
\<close>

definition example_second_session :: quiz_session where
  "example_second_session =
     \<lparr>qs_id = 52, qs_quiz_id = 81, instructor_id = 91, session_code = ''54321'',
      status = PENDING, current_question_id = None, start_time = None, end_time = None,
      created_at = - 4000000\<rparr>"

definition example_ended_session :: quiz_session where
  "example_ended_session =
     \<lparr>qs_id = 53, qs_quiz_id = 82, instructor_id = 91, session_code = ''77777'',
      status = CLOSED, current_question_id = Some 33, start_time = Some (- 90000000),
      end_time = Some (- 60000000), created_at = - 95000000\<rparr>"

definition example_bob_answer :: student_answer where
  "example_bob_answer = \<lparr>sa_id = 76, sa_session_id = 51, sa_student_id = 22, sa_question_id = 31,
                          option_id = Some 41, submitted_at = 3000000\<rparr>"

definition example_bob_wrong_answer :: student_answer where
  "example_bob_wrong_answer = \<lparr>sa_id = 77, sa_session_id = 51, sa_student_id = 22,
                                sa_question_id = 32, option_id = Some 44, submitted_at = 40000000\<rparr>"

definition example_dee_answer :: student_answer where
  "example_dee_answer = \<lparr>sa_id = 78, sa_session_id = 52, sa_student_id = 24, sa_question_id = 31,
                          option_id = Some 41, submitted_at = 3000000\<rparr>"

definition example_class_db :: db where
  "example_class_db =
     \<lparr>users = [\<lparr>u_id = 21, username = ''ann''\<rparr>, \<lparr>u_id = 22, username = ''bob''\<rparr>,
               \<lparr>u_id = 23, username = ''cy''\<rparr>, \<lparr>u_id = 24, username = ''dee''\<rparr>],
      questions = [\<lparr>q_id = 33, q_quiz_id = 82, question_order = 5, time_limit = 20\<rparr>,
                   \<lparr>q_id = 32, q_quiz_id = 81, question_order = 2, time_limit = 30\<rparr>,
                   \<lparr>q_id = 31, q_quiz_id = 81, question_order = 1, time_limit = 30\<rparr>],
      question_options =
        [\<lparr>qo_id = 41, qo_question_id = 31, option_order = 1, is_correct = True\<rparr>,
         \<lparr>qo_id = 42, qo_question_id = 31, option_order = 2, is_correct = False\<rparr>,
         \<lparr>qo_id = 43, qo_question_id = 32, option_order = 1, is_correct = True\<rparr>,
         \<lparr>qo_id = 44, qo_question_id = 32, option_order = 2, is_correct = False\<rparr>],
      quiz_sessions = [example_session, example_second_session, example_ended_session],
      session_participants =
        [\<lparr>sp_id = 61, sp_session_id = 51, sp_student_id = 22, joined_at = - 1000000\<rparr>,
         \<lparr>sp_id = 62, sp_session_id = 52, sp_student_id = 24, joined_at = - 900000\<rparr>,
         \<lparr>sp_id = 63, sp_session_id = 51, sp_student_id = 21, joined_at = - 800000\<rparr>,
         \<lparr>sp_id = 64, sp_session_id = 51, sp_student_id = 23, joined_at = - 700000\<rparr>],
      student_answers =
        [example_bob_answer, example_dee_answer, example_answer, example_bob_wrong_answer]\<rparr>"




text \<open>
  The same class when session 51 has reached its second question and session 52 belongs
  to a quiz that has no questions.
\<close>

definition example_final_db :: db where
  "example_final_db =
     example_class_db\<lparr>quiz_sessions :=
       [example_session\<lparr>current_question_id := Some 32\<rparr>,
        example_second_session\<lparr>qs_quiz_id := 83\<rparr>,
        example_ended_session]\<rparr>"
section \<open>Properties of binary64 rounding\<close>

lemma pow2_nat: "0 \<le> e \<Longrightarrow> (2::rat) powi e = 2 ^ nat e"
  by (simp add: power_int_def)

lemma ilog2_bounds:
  assumes "0 < x"
  shows "2 powi (ilog2 x) \<le> x" and "x < 2 powi (ilog2 x + 1)"
proof -
  obtain p q where pq: "quotient_of x = (p, q)" by (cases "quotient_of x")
  have q: "0 < q" using pq quotient_of_denom_pos by blast
  have x: "x = of_int p / of_int q" using pq quotient_of_div by blast
  have p: "0 < p" using assms q x by (simp add: zero_less_divide_iff)
  define bp where "bp = bitlen p"
  define bq where "bq = bitlen q"
  have bp1: "1 \<le> bp" using p by (simp add: bp_def bitlen_alt_def)
  have bq1: "1 \<le> bq" using q by (simp add: bq_def bitlen_alt_def)
  from bitlen_bounds[OF p] have pb: "2 ^ nat (bp - 1) \<le> p" "p < 2 ^ nat bp"
    by (simp_all add: bp_def)
  from bitlen_bounds[OF q] have qb: "2 ^ nat (bq - 1) \<le> q" "q < 2 ^ nat bq"
    by (simp_all add: bq_def)
  have pr: "(2::rat) powi (bp - 1) \<le> of_int p" "of_int p < (2::rat) powi bp"
  proof -
    have "(of_int (2 ^ nat (bp - 1)) :: rat) \<le> of_int p" using pb(1) of_int_le_iff by blast
    then show "(2::rat) powi (bp - 1) \<le> of_int p" using bp1 by (simp add: pow2_nat)
    have "(of_int p :: rat) < of_int (2 ^ nat bp)" using pb(2) of_int_less_iff by blast
    then show "of_int p < (2::rat) powi bp" using bp1 by (simp add: pow2_nat)
  qed
  have qr: "(2::rat) powi (bq - 1) \<le> of_int q" "of_int q < (2::rat) powi bq"
  proof -
    have "(of_int (2 ^ nat (bq - 1)) :: rat) \<le> of_int q" using qb(1) of_int_le_iff by blast
    then show "(2::rat) powi (bq - 1) \<le> of_int q" using bq1 by (simp add: pow2_nat)
    have "(of_int q :: rat) < of_int (2 ^ nat bq)" using qb(2) of_int_less_iff by blast
    then show "of_int q < (2::rat) powi bq" using bq1 by (simp add: pow2_nat)
  qed
  define d where "d = bp - bq"
  have qpos: "(0::rat) < of_int q" using q by simp
  have up: "x < 2 powi (d + 1)"
  proof -
    have "of_int p < (2::rat) powi (d + 1) * 2 powi (bq - 1)"
      using pr(2) by (simp add: d_def flip: power_int_add)
    also have "\<dots> \<le> 2 powi (d + 1) * of_int q"
      using qr(1) by (simp add: mult_left_mono)
    finally show ?thesis using qpos by (simp add: x pos_divide_less_eq)
  qed
  have lo: "2 powi (d - 1) < x"
  proof -
    have "(2::rat) powi (d - 1) * of_int q < 2 powi (d - 1) * 2 powi bq"
      using qr(2) by (simp add: mult_strict_left_mono)
    also have "\<dots> = 2 powi (bp - 1)" by (simp add: d_def flip: power_int_add)
    also have "\<dots> \<le> of_int p" by (rule pr(1))
    finally show ?thesis using qpos by (simp add: x pos_less_divide_eq)
  qed
  have il: "ilog2 x = (if 2 powi d \<le> x then d else d - 1)"
    by (simp add: ilog2_def pq d_def bp_def bq_def Let_def)
  show "2 powi (ilog2 x) \<le> x" using lo by (auto simp: il)
  show "x < 2 powi (ilog2 x + 1)" using up by (auto simp: il)
qed

lemma pow2_less_iff: "(2::rat) powi a < 2 powi b \<longleftrightarrow> a < b"
proof
  assume h: "(2::rat) powi a < 2 powi b"
  show "a < b"
  proof (rule ccontr)
    assume "\<not> a < b"
    then have "b \<le> a" by simp
    then have "(2::rat) powi b \<le> 2 powi a" by (intro power_int_increasing) auto
    with h show False by simp
  qed
next
  assume "a < b"
  then show "(2::rat) powi a < 2 powi b" by (intro power_int_strict_increasing) auto
qed

lemma pow2_le_iff: "(2::rat) powi a \<le> 2 powi b \<longleftrightarrow> a \<le> b"
  using pow2_less_iff[of b a] by (auto simp: not_less[symmetric])

lemma pow2_pos: "(0::rat) < 2 powi a"
  by (simp add: zero_less_power_int)

lemma pow2_split: "(2::rat) powi (a + int n) = 2 ^ n * 2 powi a"
  by (simp add: power_int_add)

lemma ilog2_unique:
  assumes "2 powi e \<le> x" "x < 2 powi (e + 1)"
  shows "ilog2 x = e"
proof -
  have x: "0 < x" by (rule less_le_trans[OF pow2_pos assms(1)])
  note b = ilog2_bounds[OF x]
  have "2 powi e < (2::rat) powi (ilog2 x + 1)" using assms(1) b(2) by simp
  then have 1: "e < ilog2 x + 1" by (simp add: pow2_less_iff)
  have "2 powi (ilog2 x) < (2::rat) powi (e + 1)" using assms(2) b(1) by simp
  then have 2: "ilog2 x < e + 1" by (simp add: pow2_less_iff)
  show ?thesis using 1 2 by simp
qed

lemma ilog2_mono:
  assumes "0 < x" "x \<le> y"
  shows "ilog2 x \<le> ilog2 y"
proof -
  have y: "0 < y" using assms by simp
  have "2 powi (ilog2 x) \<le> x" using ilog2_bounds(1)[OF assms(1)] .
  also have "x \<le> y" by fact
  also have "y < 2 powi (ilog2 y + 1)" using ilog2_bounds(2)[OF y] .
  finally show ?thesis by (simp add: pow2_less_iff)
qed

lemma rne_floor: "\<lfloor>x\<rfloor> \<le> rne x" and rne_floor1: "rne x \<le> \<lfloor>x\<rfloor> + 1"
  by (simp_all add: rne_def Let_def)

lemma rne_of_int [simp]: "rne (of_int n) = n"
  by (simp add: rne_def)

lemma rne_numeral [simp]: "rne (numeral k) = numeral k"
  using rne_of_int[of "numeral k"] by simp

lemma rne_mono:
  assumes "x \<le> y"
  shows "rne x \<le> rne y"
proof (cases "\<lfloor>x\<rfloor> < \<lfloor>y\<rfloor>")
  case True
  have "rne x \<le> \<lfloor>x\<rfloor> + 1" by (rule rne_floor1)
  also have "\<dots> \<le> \<lfloor>y\<rfloor>" using True by simp
  also have "\<dots> \<le> rne y" by (rule rne_floor)
  finally show ?thesis .
next
  case False
  have "\<lfloor>x\<rfloor> \<le> \<lfloor>y\<rfloor>" using assms by (rule floor_mono)
  with False have eq: "\<lfloor>x\<rfloor> = \<lfloor>y\<rfloor>" by simp
  show ?thesis using assms by (auto simp: rne_def Let_def eq)
qed

lemma expo_upper: "0 < x \<Longrightarrow> x < 2 powi (expo x + 1)"
proof -
  assume x: "0 < x"
  have "x < 2 powi (ilog2 x + 1)" by (rule ilog2_bounds(2)[OF x])
  also have "\<dots> \<le> 2 powi (expo x + 1)" by (simp add: pow2_le_iff expo_def)
  finally show ?thesis .
qed

lemma expo_lower: "0 < x \<Longrightarrow> - 1022 < expo x \<Longrightarrow> 2 powi (expo x) \<le> x"
  using ilog2_bounds(1)[of x] by (simp add: expo_def max_def split: if_splits)

lemma expo_mono: "0 < x \<Longrightarrow> x \<le> y \<Longrightarrow> expo x \<le> expo y"
  using ilog2_mono[of x y] by (simp add: expo_def)

lemma expo_ge: "- 1022 \<le> expo x"
  by (simp add: expo_def)

lemma expo_unique:
  assumes "2 powi e \<le> x" "x < 2 powi (e + 1)" "- 1022 \<le> e"
  shows "expo x = e"
  using ilog2_unique[OF assms(1,2)] assms(3) by (simp add: expo_def)

lemma ulp_pos: "0 < ulp x"
  by (simp add: ulp_def pow2_pos)

lemma fl_pos_eq: "0 < x \<Longrightarrow> fl x = of_int (rne (x / ulp x)) * ulp x"
  by (simp add: fl_def)

lemma fl_zero [simp]: "fl 0 = 0"
  by (simp add: fl_def)

lemma fl_nonneg: "0 \<le> x \<Longrightarrow> 0 \<le> fl x"
proof (cases "x = 0")
  case False
  assume "0 \<le> x"
  with False have x: "0 < x" by simp
  have "0 \<le> x / ulp x" using x ulp_pos[of x] by simp
  then have "0 \<le> \<lfloor>x / ulp x\<rfloor>" by simp
  then have "0 \<le> rne (x / ulp x)" using rne_floor[of "x / ulp x"] by linarith
  then show ?thesis using ulp_pos[of x] by (simp add: fl_pos_eq[OF x])
qed simp

lemma mant_upper:
  assumes x: "0 < x"
  shows "rne (x / ulp x) \<le> 2 ^ 53"
proof -
  have "x < 2 powi (expo x + 1)" by (rule expo_upper[OF x])
  also have "\<dots> = 2 ^ 53 * ulp x"
    using pow2_split[of "expo x - 52" 53] by (simp add: ulp_def add.commute)
  finally have "x / ulp x < 2 ^ 53" using ulp_pos[of x] by (simp add: pos_divide_less_eq)
  then have "x / ulp x \<le> of_int (2 ^ 53)" by simp
  then have "rne (x / ulp x) \<le> rne (of_int (2 ^ 53))" by (rule rne_mono)
  then show ?thesis by simp
qed

lemma mant_lower:
  assumes x: "0 < x" and e: "- 1022 < expo x"
  shows "2 ^ 52 \<le> rne (x / ulp x)"
proof -
  have "2 ^ 52 * ulp x = 2 powi (expo x)"
    using pow2_split[of "expo x - 52" 52] by (simp add: ulp_def)
  also have "\<dots> \<le> x" by (rule expo_lower[OF x e])
  finally have "2 ^ 52 \<le> x / ulp x" using ulp_pos[of x] by (simp add: pos_le_divide_eq)
  then have "of_int (2 ^ 52) \<le> x / ulp x" by simp
  then have "rne (of_int (2 ^ 52)) \<le> rne (x / ulp x)" by (rule rne_mono)
  then show ?thesis by simp
qed

lemma fl_upper:
  assumes x: "0 < x"
  shows "fl x \<le> 2 powi (expo x + 1)"
proof -
  have "(of_int (rne (x / ulp x)) :: rat) \<le> of_int (2 ^ 53)"
    using mant_upper[OF x] of_int_le_iff by blast
  then have "of_int (rne (x / ulp x)) * ulp x \<le> 2 ^ 53 * ulp x"
    using ulp_pos[of x] by simp
  also have "\<dots> = 2 powi (expo x + 1)"
    using pow2_split[of "expo x - 52" 53] by (simp add: ulp_def add.commute)
  finally show ?thesis by (simp add: fl_pos_eq[OF x])
qed

lemma fl_lower:
  assumes x: "0 < x" and e: "- 1022 < expo x"
  shows "2 powi (expo x) \<le> fl x"
proof -
  have "(of_int (2 ^ 52) :: rat) \<le> of_int (rne (x / ulp x))"
    using mant_lower[OF x e] of_int_le_iff by blast
  then have "2 ^ 52 * ulp x \<le> of_int (rne (x / ulp x)) * ulp x"
    using ulp_pos[of x] by simp
  moreover have "2 ^ 52 * ulp x = 2 powi (expo x)"
    using pow2_split[of "expo x - 52" 52] by (simp add: ulp_def)
  ultimately show ?thesis by (simp add: fl_pos_eq[OF x])
qed

lemma fl_mono:
  assumes "0 \<le> x" "x \<le> y"
  shows "fl x \<le> fl y"
proof (cases "x = 0")
  case True
  then show ?thesis using fl_nonneg[of y] assms by simp
next
  case False
  with assms have x: "0 < x" and y: "0 < y" by simp_all
  show ?thesis
  proof (cases "expo x = expo y")
    case True
    then have u: "ulp x = ulp y" by (simp add: ulp_def)
    have "x / ulp y \<le> y / ulp y" using assms(2) ulp_pos[of y] by (simp add: divide_right_mono)
    then have "rne (x / ulp y) \<le> rne (y / ulp y)" by (rule rne_mono)
    then have "(of_int (rne (x / ulp y)) :: rat) \<le> of_int (rne (y / ulp y))" by simp
    then show ?thesis using ulp_pos[of y]
      by (simp add: fl_pos_eq[OF x] fl_pos_eq[OF y] u)
  next
    case False
    with expo_mono[OF x assms(2)] have lt: "expo x < expo y" by simp
    then have e: "- 1022 < expo y" using expo_ge[of x] by simp
    have "fl x \<le> 2 powi (expo x + 1)" by (rule fl_upper[OF x])
    also have "\<dots> \<le> 2 powi (expo y)" using lt by (simp add: pow2_le_iff)
    also have "\<dots> \<le> fl y" by (rule fl_lower[OF y e])
    finally show ?thesis .
  qed
qed

lemma fl_exact:
  assumes x: "0 < x" and n: "x = of_int n * ulp x"
  shows "fl x = x"
proof -
  have "x / ulp x = of_int n" using ulp_pos[of x] by (subst n) simp
  then show ?thesis using n by (simp add: fl_pos_eq[OF x])
qed


lemma fl_of_int_exact:
  assumes "1 \<le> n" "n \<le> 2 ^ 53"
  shows "fl (of_int n) = of_int n"
proof -
  define x :: rat where "x = of_int n"
  have x: "0 < x" using assms(1) by (simp add: x_def)
  have x1: "2 powi 0 \<le> x" using assms(1) by (simp add: x_def)
  have e0: "0 \<le> expo x"
  proof -
    have "2 powi 0 < (2::rat) powi (ilog2 x + 1)"
      using x1 ilog2_bounds(2)[OF x] by (rule le_less_trans)
    then have "0 \<le> ilog2 x" by (simp only: pow2_less_iff)
    then show ?thesis by (simp add: expo_def)
  qed
  then have em: "- 1022 < expo x" by simp
  have "(2::rat) powi (expo x) \<le> x" by (rule expo_lower[OF x em])
  also have "x \<le> 2 ^ 53"
  proof -
    have "(of_int n :: rat) \<le> of_int (2 ^ 53)" using assms(2) of_int_le_iff by blast
    then show ?thesis by (simp add: x_def)
  qed
  also have "(2::rat) ^ 53 = 2 powi 53" by simp
  finally have e53: "expo x \<le> 53" by (simp only: pow2_le_iff)
  show ?thesis
  proof (cases "expo x = 53")
    case True
    have "(2::rat) ^ 53 = 2 powi (expo x)" using True by simp
    also have "\<dots> \<le> x" by (rule expo_lower[OF x em])
    finally have "x = 2 ^ 53" using \<open>x \<le> 2 ^ 53\<close> by simp
    moreover have "ulp x = 2" using True by (simp add: ulp_def)
    ultimately have "x = of_int (2 ^ 52) * ulp x" by simp
    then have "fl x = x" by (rule fl_exact[OF x])
    then show ?thesis by (simp add: x_def)
  next
    case False
    with e53 have le: "expo x \<le> 52" by simp
    define k where "k = nat (52 - expo x)"
    have "(2::rat) powi (expo x - 52 + int k) = 2 ^ k * 2 powi (expo x - 52)"
      by (rule pow2_split)
    moreover have "expo x - 52 + int k = 0" using le by (simp add: k_def)
    ultimately have u: "2 ^ k * ulp x = 1" by (simp add: ulp_def)
    have "of_int (n * 2 ^ k) * ulp x = of_int n * (2 ^ k * ulp x)" by simp
    also have "\<dots> = x" unfolding u by (simp add: x_def)
    finally have "x = of_int (n * 2 ^ k) * ulp x" by simp
    then have "fl x = x" by (rule fl_exact[OF x])
    then show ?thesis by (simp add: x_def)
  qed
qed

lemma fl_one [simp]: "fl 1 = 1"
  using fl_of_int_exact[of 1] by simp

lemma fl_1000 [simp]: "fl 1000 = 1000"
  using fl_of_int_exact[of 1000] by simp

lemma fl_100 [simp]: "fl 100 = 100"
  using fl_of_int_exact[of 100] by simp

lemma penalty_at_limit: "fl (1000 * fl (3 / 10)) = 300"
  by code_simp

lemma multiplier_nonneg: "0 \<le> fl (3 / 10)"
  by (rule fl_nonneg) simp

lemma fl_pow2:
  assumes "- 1022 \<le> e"
  shows "fl (2 powi e) = 2 powi e"
proof -
  have e: "expo (2 powi e) = e"
    by (rule expo_unique) (simp_all add: pow2_less_iff assms)
  have u: "ulp (2 powi e) = 2 powi (e - 52)"
    by (simp add: ulp_def e)
  have "(2::rat) powi (e - 52 + int 52) = 2 ^ 52 * 2 powi (e - 52)"
    by (rule pow2_split)
  then have "(2::rat) powi e = of_int (2 ^ 52) * ulp (2 powi e)"
    unfolding u by simp
  then show ?thesis by (rule fl_exact[OF pow2_pos])
qed

section \<open>Scoring one answer\<close>

lemma py_int_nonneg: "0 \<le> x \<Longrightarrow> py_int x = \<lfloor>x\<rfloor>"
  by (simp add: py_int_def)

lemma base_points_float [simp]: "fl (of_int BASE_POINTS) = 1000"
  by (simp add: BASE_POINTS_def)

lemma num_val_clamped:
  assumes "0 \<le> limit"
  shows "num_val (clamped_time a qst limit) = elapsed a qst limit"
  using assms by (auto simp: clamped_time_def elapsed_def py_min_def py_max_def min_def max_def)

lemma elapsed_bounds:
  assumes "0 \<le> limit"
  shows "0 \<le> elapsed a qst limit" and "elapsed a qst limit \<le> of_int limit"
  using assms by (simp_all add: elapsed_def)

lemma not_overflow_small:
  assumes "1 \<le> limit" "limit \<le> 2 ^ 53"
  shows "\<not> 2 ^ 1024 \<le> fl \<bar>of_int limit\<bar>"
proof -
  have "(of_int limit :: rat) \<le> of_int (2 ^ 53)" using assms(2) of_int_le_iff by blast
  then have "(of_int limit :: rat) \<le> 2 ^ 53" by simp
  moreover have "fl \<bar>of_int limit\<bar> = of_int limit"
    using fl_of_int_exact[OF assms] assms(1) by simp
  ultimately show ?thesis by simp
qed

lemma quotient_eq:
  assumes "1 \<le> limit" "limit \<le> 2 ^ 53"
  shows "py_truediv (clamped_time a qst limit) (PInt limit)
           = Inr (fdiv (elapsed a qst limit) (of_int limit))"
proof -
  define t where "t = total_seconds (submitted_at a - qst)"
  have T: "fl (of_int limit) = of_int limit" by (rule fl_of_int_exact[OF assms])
  have Tpos: "(0::rat) < of_int limit" and Tne: "limit \<noteq> 0" using assms(1) by simp_all
  note nover = not_overflow_small[OF assms]
  consider (late) "of_int limit < t" | (mid) "0 < t" "t \<le> of_int limit" | (early) "t \<le> 0"
    by linarith
  then show ?thesis
  proof cases
    case late
    then have c: "clamped_time a qst limit = PInt limit"
      using Tpos by (simp add: clamped_time_def py_min_def py_max_def t_def)
    have e: "elapsed a qst limit = of_int limit"
      using late Tpos by (simp add: elapsed_def t_def min_def max_def)
    show ?thesis using Tne Tpos by (simp add: c e fdiv_def Let_def)
  next
    case mid
    then have c: "clamped_time a qst limit = PFloat t"
      by (simp add: clamped_time_def py_min_def py_max_def t_def)
    have e: "elapsed a qst limit = t"
      using mid by (simp add: elapsed_def t_def min_def max_def)
    show ?thesis using nover Tpos by (simp add: c e T)
  next
    case early
    then have c: "clamped_time a qst limit = PInt 0"
      using Tpos by (simp add: clamped_time_def py_min_def py_max_def t_def)
    have e: "elapsed a qst limit = 0"
      using early Tpos by (simp add: elapsed_def t_def min_def max_def)
    show ?thesis using Tne by (simp add: c e fdiv_def Let_def)
  qed
qed

lemma penalty_bounds:
  assumes "0 \<le> e" "e \<le> T" "0 < T"
  shows "0 \<le> fmul (fmul (fdiv e T) 1000) (fl (3 / 10))"
    and "fmul (fmul (fdiv e T) 1000) (fl (3 / 10)) \<le> 300"
proof -
  define q where "q = fdiv e T"
  define m where "m = fmul q 1000"
  have r0: "0 \<le> e / T" and r1: "e / T \<le> 1" using assms by simp_all
  have q0: "0 \<le> q" unfolding q_def fdiv_def by (rule fl_nonneg[OF r0])
  have "q \<le> fl 1" unfolding q_def fdiv_def by (rule fl_mono[OF r0 r1])
  then have q1: "q \<le> 1" by simp
  have p0: "0 \<le> q * 1000" using q0 by simp
  have m0: "0 \<le> m" unfolding m_def fmul_def by (rule fl_nonneg[OF p0])
  have "q * 1000 \<le> 1000" using q1 by simp
  then have "m \<le> fl 1000" unfolding m_def fmul_def by (rule fl_mono[OF p0])
  then have m1: "m \<le> 1000" by simp
  have c0: "0 \<le> m * fl (3 / 10)" using m0 multiplier_nonneg by simp
  have c1: "m * fl (3 / 10) \<le> 1000 * fl (3 / 10)"
    using m1 multiplier_nonneg by (rule mult_right_mono)
  show "0 \<le> fmul (fmul (fdiv e T) 1000) (fl (3 / 10))"
    using fl_nonneg[OF c0] by (simp add: fmul_def m_def q_def)
  show "fmul (fmul (fdiv e T) 1000) (fl (3 / 10)) \<le> 300"
    using fl_mono[OF c0 c1] by (simp add: fmul_def m_def q_def penalty_at_limit)
qed

lemma score_correct:
  assumes "answered_correctly d a" "1 \<le> limit" "limit \<le> 2 ^ 53"
  shows "calculate_answer_score d a qst limit = Inr (score_spec (elapsed a qst limit) limit)"
proof -
  have l0: "0 \<le> limit" and Tpos: "(0::rat) < of_int limit" using assms(2) by simp_all
  have "0 \<le> fmul (fmul (fdiv (elapsed a qst limit) (of_int limit)) 1000) (fl (3 / 10))"
    by (rule penalty_bounds(1)[OF elapsed_bounds[OF l0] Tpos])
  then show ?thesis
    using assms(1)
    by (simp add: calculate_answer_score_def quotient_eq[OF assms(2,3)] score_spec_def
        speed_penalty_spec_def SPEED_PENALTY_MULTIPLIER_def py_int_nonneg Let_def)
      (simp add: BASE_POINTS_def)
qed

lemma score_incorrect:
  "\<not> answered_correctly d a \<Longrightarrow> calculate_answer_score d a qst limit = Inr 0"
  by (simp add: calculate_answer_score_def)

lemma score_spec_range:
  assumes "0 \<le> e" "e \<le> of_int limit" "1 \<le> limit"
  shows "700 \<le> score_spec e limit" and "score_spec e limit \<le> 1000"
proof -
  have Tpos: "(0::rat) < of_int limit" using assms(3) by simp
  note b = penalty_bounds[OF assms(1,2) Tpos]
  have lo: "0 \<le> speed_penalty_spec e limit"
    using b(1) by (simp add: speed_penalty_spec_def)
  have "speed_penalty_spec e limit \<le> \<lfloor>300::rat\<rfloor>"
    unfolding speed_penalty_spec_def using b(2) by (rule floor_mono)
  then have hi: "speed_penalty_spec e limit \<le> 300" by simp
  show "700 \<le> score_spec e limit" using hi by (simp add: score_spec_def)
  show "score_spec e limit \<le> 1000" using lo by (simp add: score_spec_def)
qed

lemma score_spec_instant: "score_spec 0 limit = 1000"
  by (simp add: score_spec_def speed_penalty_spec_def fdiv_def fmul_def)

lemma score_spec_at_limit: "1 \<le> limit \<Longrightarrow> score_spec (of_int limit) limit = 700"
  by (simp add: score_spec_def speed_penalty_spec_def fdiv_def fmul_def penalty_at_limit)

lemma limit_float_ge_one:
  assumes "1 \<le> limit"
  shows "1 \<le> fl (of_int limit)"
proof -
  have "fl 1 \<le> fl (of_int limit)" using assms by (intro fl_mono) simp_all
  then show ?thesis by simp
qed

lemma quotient_shape:
  assumes "1 \<le> limit"
  shows "(\<exists>q. py_truediv (clamped_time a qst limit) (PInt limit) = Inr q)
       \<or> (py_truediv (clamped_time a qst limit) (PInt limit) = Inl OverflowError
          \<and> 2 ^ 1024 \<le> fl (of_int limit))"
proof -
  define t where "t = total_seconds (submitted_at a - qst)"
  have Tpos: "(0::rat) < of_int limit" and Tne: "limit \<noteq> 0" using assms by simp_all
  have abs: "\<bar>of_int limit :: rat\<bar> = of_int limit" using assms by simp
  have fne: "fl (of_int limit) \<noteq> 0" using limit_float_ge_one[OF assms] by simp
  consider (late) "of_int limit < t" | (mid) "0 < t" "t \<le> of_int limit" | (early) "t \<le> 0"
    by linarith
  then show ?thesis
  proof cases
    case late
    then have c: "clamped_time a qst limit = PInt limit"
      using Tpos by (simp add: clamped_time_def py_min_def py_max_def t_def)
    show ?thesis using Tne Tpos by (simp add: c Let_def)
  next
    case mid
    then have c: "clamped_time a qst limit = PFloat t"
      by (simp add: clamped_time_def py_min_def py_max_def t_def)
    show ?thesis using fne by (simp add: c abs)
  next
    case early
    then have c: "clamped_time a qst limit = PInt 0"
      using Tpos by (simp add: clamped_time_def py_min_def py_max_def t_def)
    show ?thesis using Tne by (simp add: c Let_def)
  qed
qed

lemma score_shape:
  assumes "1 \<le> limit"
  shows "(\<exists>s. calculate_answer_score d a qst limit = Inr s)
       \<or> (calculate_answer_score d a qst limit = Inl OverflowError
          \<and> 2 ^ 1024 \<le> fl (of_int limit))"
  using quotient_shape[OF assms, of a qst]
  by (auto simp: calculate_answer_score_def Let_def)

lemma below_overflow:
  assumes "1 \<le> limit" "limit < 2 ^ 1023"
  shows "\<not> 2 ^ 1024 \<le> fl (of_int limit)"
proof -
  have "(of_int limit :: rat) \<le> of_int (2 ^ 1023)" using assms(2) by (simp only: of_int_le_iff)
  then have "(of_int limit :: rat) \<le> 2 powi 1023" by (simp add: power_int_def)
  moreover have "(0::rat) \<le> of_int limit" using assms(1) by simp
  ultimately have "fl (of_int limit) \<le> fl (2 powi 1023)" by (intro fl_mono)
  also have "\<dots> = 2 powi 1023" by (rule fl_pow2) simp
  also have "\<dots> < 2 powi 1024" by (simp only: pow2_less_iff)
  also have "\<dots> = 2 ^ 1024" by (simp add: power_int_def)
  finally show ?thesis by simp
qed

lemma score_zero_limit:
  assumes "answered_correctly d a"
  shows "calculate_answer_score d a qst 0 = Inl ZeroDivisionError"
proof -
  have "clamped_time a qst 0 = PInt 0"
    by (simp add: clamped_time_def py_min_def py_max_def)
  then show ?thesis using assms by (simp add: calculate_answer_score_def)
qed

section \<open>Claims about the score of one answer\<close>

lemma example_answer_correct: "answered_correctly example_db example_answer"
  by (simp add: answered_correctly_def selected_option_def example_db_def example_answer_def)

lemma example_elapsed: "elapsed example_answer 0 30 = 3"
  by code_simp

lemma example_penalty: "speed_penalty_spec 3 30 = 30"
  by code_simp

text \<open>
  Binary64 rounding is part of the rule: 0.7 seconds into a 10 second question, the exact
  quotient \<open>0.7 / 10 * 1000 * 0.3\<close> is 21, but the three rounded operations give
  20.999999999999996, so the penalty is 20 and the score 980.
\<close>

lemma score_spec_rounding_example:
  "score_spec (fl (7 / 10)) 10 = 980 \<and> 1000 - \<lfloor>(7 / 10) / 10 * 1000 * (3 / 10) :: rat\<rfloor> = 979"
  by code_simp

text \<open>
  Claim C1.  For a time limit of at least one second (and at most \<open>2 ^ 53\<close>, so that it is
  a float exactly): an answer with no selected option, or whose selected option is not
  correct, scores 0; any other answer scores
  \<open>max(0, 1000 - floor(elapsed / time_limit * 1000 * 0.3))\<close>, where \<open>elapsed\<close> is the
  submission delay in seconds clamped to \<open>[0, time_limit]\<close> and the arithmetic is the
  binary64 arithmetic of the source.  The score always lies in \<open>[0, 1000]\<close>; it is 1000 at
  \<open>elapsed = 0\<close> and 700 at \<open>elapsed = time_limit\<close>.
\<close>

theorem calculate_answer_score_formula:
  assumes "1 \<le> limit" and "limit \<le> 2 ^ 53"
  shows "(\<not> answered_correctly d a \<longrightarrow> calculate_answer_score d a qst limit = Inr 0)
       \<and> (answered_correctly d a \<longrightarrow>
            calculate_answer_score d a qst limit =
              Inr (max 0 (1000 - \<lfloor>fmul (fmul (fdiv (elapsed a qst limit) (of_int limit)) 1000)
                                     (fl (3 / 10))\<rfloor>)))
       \<and> (\<exists>s. calculate_answer_score d a qst limit = Inr s \<and> 0 \<le> s \<and> s \<le> 1000)
       \<and> (answered_correctly d a \<and> elapsed a qst limit = 0 \<longrightarrow>
            calculate_answer_score d a qst limit = Inr 1000)
       \<and> (answered_correctly d a \<and> elapsed a qst limit = of_int limit \<longrightarrow>
            calculate_answer_score d a qst limit = Inr 700)"
proof -
  have l0: "0 \<le> limit" using assms(1) by simp
  note eb = elapsed_bounds[OF l0, of a qst]
  note rng = score_spec_range[OF eb assms(1)]
  have wrong: "\<not> answered_correctly d a \<longrightarrow> calculate_answer_score d a qst limit = Inr 0"
    by (simp add: score_incorrect)
  have right: "answered_correctly d a \<longrightarrow>
      calculate_answer_score d a qst limit = Inr (score_spec (elapsed a qst limit) limit)"
    by (simp add: score_correct[OF _ assms])
  have range: "\<exists>s. calculate_answer_score d a qst limit = Inr s \<and> 0 \<le> s \<and> s \<le> 1000"
  proof (cases "answered_correctly d a")
    case True
    then show ?thesis using right rng by simp
  next
    case False
    then show ?thesis using wrong by simp
  qed
  have instant: "answered_correctly d a \<and> elapsed a qst limit = 0 \<longrightarrow>
      calculate_answer_score d a qst limit = Inr 1000"
    using right by (auto simp: score_spec_instant)
  have at_limit: "answered_correctly d a \<and> elapsed a qst limit = of_int limit \<longrightarrow>
      calculate_answer_score d a qst limit = Inr 700"
    using right by (auto simp: score_spec_at_limit[OF assms(1)])
  from wrong right range instant at_limit show ?thesis
    by (simp add: score_spec_def speed_penalty_spec_def)
qed

theorem calculate_answer_score_formula_witness:
  "(1::int) \<le> 30 \<and> (30::int) \<le> 2 ^ 53
   \<and> answered_correctly example_db example_answer
   \<and> calculate_answer_score example_db example_answer 0 30 = Inr 970
   \<and> elapsed example_answer 3000000 30 = 0
   \<and> calculate_answer_score example_db example_answer 3000000 30 = Inr 1000
   \<and> elapsed example_answer (- 27000000) 30 = of_int 30
   \<and> calculate_answer_score example_db example_answer (- 27000000) 30 = Inr 700
   \<and> \<not> answered_correctly example_db example_wrong_answer
   \<and> calculate_answer_score example_db example_wrong_answer 0 30 = Inr 0"
proof -
  have h1: "(1::int) \<le> 30" and h2: "(30::int) \<le> 2 ^ 53" by simp_all
  note c = example_answer_correct
  have w: "\<not> answered_correctly example_db example_wrong_answer"
    by (simp add: answered_correctly_def selected_option_def example_db_def
        example_wrong_answer_def)
  have e0: "elapsed example_answer 3000000 30 = 0" by code_simp
  have e1: "elapsed example_answer (- 27000000) 30 = of_int 30" by code_simp
  have "calculate_answer_score example_db example_answer 0 30 =
          Inr (max 0 (1000 - \<lfloor>fmul (fmul (fdiv (elapsed example_answer 0 30) (of_int 30)) 1000)
                                 (fl (3 / 10))\<rfloor>))"
    using calculate_answer_score_formula[OF h1 h2, of example_db example_answer 0] c by blast
  also have "\<dots> = Inr 970"
    using example_penalty by (simp add: example_elapsed speed_penalty_spec_def)
  finally have mid: "calculate_answer_score example_db example_answer 0 30 = Inr 970" .
  have instant: "calculate_answer_score example_db example_answer 3000000 30 = Inr 1000"
    using calculate_answer_score_formula[OF h1 h2, of example_db example_answer 3000000] c e0
    by blast
  have late: "calculate_answer_score example_db example_answer (- 27000000) 30 = Inr 700"
    using calculate_answer_score_formula[OF h1 h2, of example_db example_answer "- 27000000"] c e1
    by blast
  have wrong: "calculate_answer_score example_db example_wrong_answer 0 30 = Inr 0"
    using calculate_answer_score_formula[OF h1 h2, of example_db example_wrong_answer 0] w
    by blast
  from h1 h2 c mid e0 instant e1 late w wrong show ?thesis by blast
qed

text \<open>
  Claim C9.  The division by \<open>time_limit\<close> is unguarded.  For a correct answer and a time
  limit of at least 1 the computation never raises a division by zero, and it returns a
  score whenever the limit is below \<open>2 ^ 1023\<close> (a larger int may fail to convert to a
  float); with \<open>time_limit = 0\<close> a correct answer raises \<open>ZeroDivisionError\<close>.
\<close>

theorem calculate_answer_score_division:
  assumes "answered_correctly d a"
  shows "(1 \<le> limit \<longrightarrow> calculate_answer_score d a qst limit \<noteq> Inl ZeroDivisionError)
       \<and> (1 \<le> limit \<and> limit < 2 ^ 1023 \<longrightarrow> (\<exists>s. calculate_answer_score d a qst limit = Inr s))
       \<and> calculate_answer_score d a qst 0 = Inl ZeroDivisionError"
proof (intro conjI impI)
  assume "1 \<le> limit"
  from score_shape[OF this, of d a qst]
  show "calculate_answer_score d a qst limit \<noteq> Inl ZeroDivisionError" by auto
next
  assume h: "1 \<le> limit \<and> limit < 2 ^ 1023"
  then have "\<not> 2 ^ 1024 \<le> fl (of_int limit)" by (intro below_overflow) simp_all
  with score_shape[of limit d a qst] h
  show "\<exists>s. calculate_answer_score d a qst limit = Inr s" by auto
next
  show "calculate_answer_score d a qst 0 = Inl ZeroDivisionError"
    by (rule score_zero_limit[OF assms])
qed

theorem calculate_answer_score_division_witness:
  "answered_correctly example_db example_answer \<and> (1::int) \<le> 30 \<and> (30::int) < 2 ^ 1023
   \<and> calculate_answer_score example_db example_answer 0 30 \<noteq> Inl ZeroDivisionError
   \<and> (\<exists>s. calculate_answer_score example_db example_answer 0 30 = Inr s)
   \<and> calculate_answer_score example_db example_answer 0 0 = Inl ZeroDivisionError"
  using calculate_answer_score_division[OF example_answer_correct, of 30 0] example_answer_correct
  by simp

section \<open>Session code generation\<close>

lemma code_loop_exhausted:
  assumes "\<And>k. attempts \<le> k \<Longrightarrow> k < m \<Longrightarrow> code_exists (random_code rng k len)"
    and "attempts \<le> m"
  shows "code_loop code_exists rng len m attempts = (m, Inl ValueError)"
  using assms
proof (induction code_exists rng len m attempts rule: code_loop.induct)
  case (1 code_exists rng len m attempts)
  show ?case
  proof (cases "attempts < m")
    case True
    have ex: "code_exists (random_code rng attempts len)"
      by (rule "1.prems"(1)) (use True in simp_all)
    have "code_loop code_exists rng len m (attempts + 1) = (m, Inl ValueError)"
    proof (rule "1.IH"[OF True refl])
      show "\<not> \<not> code_exists (random_code rng attempts len)" using ex by simp
      show "attempts + 1 \<le> m" using True by simp
      fix k
      assume "attempts + 1 \<le> k" "k < m"
      then show "code_exists (random_code rng k len)" by (intro "1.prems"(1)) simp_all
    qed
    then show ?thesis using True ex by (subst code_loop.simps) simp
  next
    case False
    with "1.prems"(2) have "attempts = m" by simp
    then show ?thesis by (subst code_loop.simps) simp
  qed
qed

lemma code_loop_first_free:
  assumes "attempts \<le> k" "k < m" "\<not> code_exists (random_code rng k len)"
    and "\<And>j. attempts \<le> j \<Longrightarrow> j < k \<Longrightarrow> code_exists (random_code rng j len)"
  shows "code_loop code_exists rng len m attempts = (k, Inr (random_code rng k len))"
  using assms
proof (induction code_exists rng len m attempts rule: code_loop.induct)
  case (1 code_exists rng len m attempts)
  have lt: "attempts < m" using "1.prems"(1,2) by simp
  show ?case
  proof (cases "attempts = k")
    case True
    then show ?thesis using lt "1.prems"(3) by (subst code_loop.simps) simp
  next
    case False
    with "1.prems"(1) have less: "attempts < k" by simp
    have ex: "code_exists (random_code rng attempts len)"
      by (rule "1.prems"(4)) (use less in simp_all)
    have "code_loop code_exists rng len m (attempts + 1) = (k, Inr (random_code rng k len))"
    proof (rule "1.IH"[OF lt refl])
      show "\<not> \<not> code_exists (random_code rng attempts len)" using ex by simp
      show "attempts + 1 \<le> k" using less by simp
      show "k < m" by (rule "1.prems"(2))
      show "\<not> code_exists (random_code rng k len)" by (rule "1.prems"(3))
      fix j
      assume "attempts + 1 \<le> j" "j < k"
      then show "code_exists (random_code rng j len)" by (intro "1.prems"(4)) simp_all
    qed
    then show ?thesis using lt ex by (subst code_loop.simps) simp
  qed
qed

text \<open>
  Claim C8.  The retry loop is a terminating function.  When the uniqueness check reports
  every generated code as existing, generation fails with the \<open>ValueError\<close> of the source
  with the attempt counter at exactly \<open>max_attempts = 100\<close>; when the \<open>k\<close>-th generated code
  (\<open>k < 100\<close>) is the first one reported free, that code is returned.
\<close>

theorem generate_session_code_bounded:
  "((\<forall>k < max_attempts. code_exists (random_code rng k len)) \<longrightarrow>
      generate_session_code_with code_exists rng len = (max_attempts, Inl ValueError))
   \<and> (\<forall>k < max_attempts.
        \<not> code_exists (random_code rng k len)
        \<and> (\<forall>j < k. code_exists (random_code rng j len)) \<longrightarrow>
        generate_session_code_with code_exists rng len = (k, Inr (random_code rng k len)))
   \<and> max_attempts = 100"
proof (intro conjI impI allI)
  assume "\<forall>k < max_attempts. code_exists (random_code rng k len)"
  then show "generate_session_code_with code_exists rng len = (max_attempts, Inl ValueError)"
    unfolding generate_session_code_with_def by (intro code_loop_exhausted) simp_all
next
  fix k
  assume "k < max_attempts"
    and "\<not> code_exists (random_code rng k len) \<and> (\<forall>j < k. code_exists (random_code rng j len))"
  then show "generate_session_code_with code_exists rng len = (k, Inr (random_code rng k len))"
    unfolding generate_session_code_with_def by (intro code_loop_first_free) simp_all
next
  show "max_attempts = 100" by (simp add: max_attempts_def)
qed

theorem generate_session_code_bounded_witness:
  "generate_session_code_with (\<lambda>c. True) (\<lambda>a j. 0) 5 = (100, Inl ValueError)
   \<and> generate_session_code_with (\<lambda>c. c = ''00000'') (\<lambda>a j. a) 5 = (1, Inr ''11111'')"
proof -
  have a: "generate_session_code_with (\<lambda>c. True) (\<lambda>a j. 0) 5 = (max_attempts, Inl ValueError)"
    using generate_session_code_bounded[of "\<lambda>c. True" "\<lambda>a j. 0" 5] by simp
  have r0: "random_code (\<lambda>a j. a) 0 5 = ''00000''" by code_simp
  have r1: "random_code (\<lambda>a j. a) 1 5 = ''11111''" by code_simp
  have r1': "random_code (\<lambda>a j. a) (Suc 0) 5 = ''11111''" by code_simp
  have "(1::nat) < max_attempts
      \<and> \<not> (random_code (\<lambda>a j. a) 1 5 = ''00000'')
      \<and> (\<forall>j < 1. random_code (\<lambda>a j. a) j 5 = ''00000'')"
    by (simp add: max_attempts_def r0 r1')
  then have "generate_session_code_with (\<lambda>c. c = ''00000'') (\<lambda>a j. a) 5
      = (1, Inr (random_code (\<lambda>a j. a) 1 5))"
    using generate_session_code_bounded[of "\<lambda>c. c = ''00000''" "\<lambda>a j. a" 5] by blast
  with a show ?thesis by (simp add: r1' max_attempts_def)
qed

section \<open>Rows fetched with first() and updated in place\<close>

lemma length_update_first [simp]: "length (update_first P f xs) = length xs"
  by (induction xs) simp_all

lemma find_update_first:
  assumes "\<And>x. P x \<Longrightarrow> P (f x)"
  shows "find P (update_first P f xs) = map_option f (find P xs)"
  using assms by (induction xs) simp_all

lemma filter_update_first:
  assumes "\<And>x. P x \<Longrightarrow> P (f x)"
  shows "filter P (update_first P f xs) = (case filter P xs of [] \<Rightarrow> [] | y # ys \<Rightarrow> f y # ys)"
  using assms by (induction xs) simp_all

lemma map_update_first_same:
  assumes "\<And>x. g (f x) = g x"
  shows "map g (update_first P f xs) = map g xs"
  using assms by (induction xs) simp_all

lemma find_Some_filter:
  "find P xs = Some e \<Longrightarrow> \<exists>rest. filter P xs = e # rest"
  by (induction xs) (auto split: if_splits)

lemma find_None_filter: "find P xs = None \<Longrightarrow> filter P xs = []"
  by (induction xs) (auto split: if_splits)

lemma filter_not_update_first:
  assumes "\<And>x. P x \<Longrightarrow> P (f x)"
  shows "filter (\<lambda>x. \<not> P x) (update_first P f xs) = filter (\<lambda>x. \<not> P x) xs"
  using assms by (induction xs) simp_all

lemma find_by_distinct_key:
  assumes "distinct (map key xs)" "x \<in> set xs"
  shows "find (\<lambda>y. key y = key x) xs = Some x"
  using assms by (induction xs) auto

section \<open>Joining a session\<close>

lemma get_session_by_unique_code:
  assumes "session \<in> set (quiz_sessions d)" "distinct (map session_code (quiz_sessions d))"
  shows "get_session_by_code d (session_code session) = Some session"
  unfolding get_session_by_code_def by (rule find_by_distinct_key[OF assms(2,1)])

lemma is_participant_iff:
  "is_participant d sid student
     \<longleftrightarrow> (\<exists>p \<in> set (session_participants d). sp_session_id p = sid \<and> sp_student_id p = student)"
  by (auto simp: is_participant_def get_participant_def find_None_iff)

text \<open>
  Claim C7.  Let \<open>session\<close> be a row of \<open>quiz_sessions\<close>, session codes being unique, and
  let a student join with its code.  If the session is CLOSED, the call fails with
  \<open>'This session has ended'\<close> and the database is unchanged.  If it is PENDING or ACTIVE
  and \<open>session_participants\<close> has a row for this session and this student, the call
  answers \<open>'Already joined'\<close> and the database is unchanged.  If it has no such row, the
  student is a user and the new primary key is free, the call answers
  \<open>'Joined successfully'\<close> and the database is the old one with exactly one row appended
  to \<open>session_participants\<close>: the new key, this session, this student and the current
  time.  If it has no such row and the student is not a user (or the key is taken), the
  insert is rejected and the call raises \<open>IntegrityError\<close>.
\<close>

theorem join_session_outcomes:
  assumes "session \<in> set (quiz_sessions d)"
    and "distinct (map session_code (quiz_sessions d))"
  shows "(status session = CLOSED \<longrightarrow>
            join_session d now new_id (session_code session) student
              = Inr (d, Failure ''This session has ended''))
       \<and> (status session \<noteq> CLOSED
           \<and> (\<exists>p \<in> set (session_participants d).
                 sp_session_id p = qs_id session \<and> sp_student_id p = student) \<longrightarrow>
            join_session d now new_id (session_code session) student
              = Inr (d, Success (''Already joined'', session)))
       \<and> (status session \<noteq> CLOSED
           \<and> (\<forall>p \<in> set (session_participants d).
                 sp_session_id p = qs_id session \<longrightarrow> sp_student_id p \<noteq> student)
           \<and> student \<in> set (map u_id (users d))
           \<and> new_id \<notin> set (map sp_id (session_participants d)) \<longrightarrow>
            join_session d now new_id (session_code session) student
              = Inr (d\<lparr>session_participants := session_participants d @
                         [\<lparr>sp_id = new_id, sp_session_id = qs_id session,
                           sp_student_id = student, joined_at = now\<rparr>]\<rparr>,
                     Success (''Joined successfully'', session)))
       \<and> (status session \<noteq> CLOSED
           \<and> (\<forall>p \<in> set (session_participants d).
                 sp_session_id p = qs_id session \<longrightarrow> sp_student_id p \<noteq> student)
           \<and> (student \<notin> set (map u_id (users d))
               \<or> new_id \<in> set (map sp_id (session_participants d))) \<longrightarrow>
            join_session d now new_id (session_code session) student = Inl IntegrityError)"
proof -
  note s = get_session_by_unique_code[OF assms]
  have fk: "qs_id session \<in> set (map qs_id (quiz_sessions d))" using assms(1) by simp
  show ?thesis
  proof (intro conjI impI)
    assume "status session = CLOSED"
    then show "join_session d now new_id (session_code session) student
        = Inr (d, Failure ''This session has ended'')"
      by (simp add: join_session_def s)
  next
    assume "status session \<noteq> CLOSED
           \<and> (\<exists>p \<in> set (session_participants d).
                 sp_session_id p = qs_id session \<and> sp_student_id p = student)"
    then have "status session \<noteq> CLOSED" "is_participant d (qs_id session) student"
      by (simp_all add: is_participant_iff)
    then show "join_session d now new_id (session_code session) student
        = Inr (d, Success (''Already joined'', session))"
      by (simp add: join_session_def s)
  next
    assume h: "status session \<noteq> CLOSED
           \<and> (\<forall>p \<in> set (session_participants d).
                 sp_session_id p = qs_id session \<longrightarrow> sp_student_id p \<noteq> student)
           \<and> student \<in> set (map u_id (users d))
           \<and> new_id \<notin> set (map sp_id (session_participants d))"
    then have n: "\<not> is_participant d (qs_id session) student"
      unfolding is_participant_iff by blast
    from h have a: "add_participant d now new_id (qs_id session) student
        = Inr (d\<lparr>session_participants := session_participants d @
                         [\<lparr>sp_id = new_id, sp_session_id = qs_id session,
                           sp_student_id = student, joined_at = now\<rparr>]\<rparr>,
               \<lparr>sp_id = new_id, sp_session_id = qs_id session,
                 sp_student_id = student, joined_at = now\<rparr>)"
      using fk by (simp add: add_participant_def Let_def)
    from h show "join_session d now new_id (session_code session) student
              = Inr (d\<lparr>session_participants := session_participants d @
                         [\<lparr>sp_id = new_id, sp_session_id = qs_id session,
                           sp_student_id = student, joined_at = now\<rparr>]\<rparr>,
                     Success (''Joined successfully'', session))"
      by (simp add: join_session_def s n a)
  next
    assume h: "status session \<noteq> CLOSED
           \<and> (\<forall>p \<in> set (session_participants d).
                 sp_session_id p = qs_id session \<longrightarrow> sp_student_id p \<noteq> student)
           \<and> (student \<notin> set (map u_id (users d))
               \<or> new_id \<in> set (map sp_id (session_participants d)))"
    then have n: "\<not> is_participant d (qs_id session) student"
      unfolding is_participant_iff by blast
    from h have a: "add_participant d now new_id (qs_id session) student = Inl IntegrityError"
      by (auto simp: add_participant_def Let_def)
    from h show "join_session d now new_id (session_code session) student = Inl IntegrityError"
      by (simp add: join_session_def s n a)
  qed
qed

lemma example_class_sessions:
  "example_session \<in> set (quiz_sessions example_class_db)"
  "example_second_session \<in> set (quiz_sessions example_class_db)"
  "example_ended_session \<in> set (quiz_sessions example_class_db)"
  "distinct (map session_code (quiz_sessions example_class_db))"
  by (simp_all add: example_class_db_def example_session_def example_second_session_def
      example_ended_session_def)

theorem join_session_outcomes_witness:
  "example_second_session \<in> set (quiz_sessions example_class_db)
   \<and> distinct (map session_code (quiz_sessions example_class_db))
   \<and> join_session example_class_db 7 65 ''54321'' 21
        = Inr (example_class_db\<lparr>session_participants := session_participants example_class_db @
                 [\<lparr>sp_id = 65, sp_session_id = 52, sp_student_id = 21, joined_at = 7\<rparr>]\<rparr>,
               Success (''Joined successfully'', example_second_session))
   \<and> join_session example_class_db 7 65 ''12345'' 21
        = Inr (example_class_db, Success (''Already joined'', example_session))
   \<and> join_session example_class_db 7 65 ''77777'' 21
        = Inr (example_class_db, Failure ''This session has ended'')
   \<and> join_session example_class_db 7 65 ''54321'' 29 = Inl IntegrityError"
proof -
  note s = example_class_sessions
  have c: "session_code example_session = ''12345''"
    "session_code example_second_session = ''54321''"
    "session_code example_ended_session = ''77777''"
    by (simp_all add: example_session_def example_second_session_def example_ended_session_def)
  have st: "status example_session \<noteq> CLOSED" "status example_second_session \<noteq> CLOSED"
    "status example_ended_session = CLOSED"
    by (simp_all add: example_session_def example_second_session_def example_ended_session_def)
  have i: "qs_id example_session = 51" "qs_id example_second_session = 52"
    by (simp_all add: example_session_def example_second_session_def)
  have p1: "\<exists>p \<in> set (session_participants example_class_db).
              sp_session_id p = qs_id example_session \<and> sp_student_id p = 21"
    by (simp add: example_class_db_def i)
  have p2: "\<forall>p \<in> set (session_participants example_class_db).
              sp_session_id p = qs_id example_second_session \<longrightarrow> sp_student_id p \<noteq> 21"
    by (simp add: example_class_db_def i)
  have p3: "\<forall>p \<in> set (session_participants example_class_db).
              sp_session_id p = qs_id example_second_session \<longrightarrow> sp_student_id p \<noteq> 29"
    by (simp add: example_class_db_def i)
  have u: "21 \<in> set (map u_id (users example_class_db))"
    "29 \<notin> set (map u_id (users example_class_db))"
    "65 \<notin> set (map sp_id (session_participants example_class_db))"
    by (simp_all add: example_class_db_def)
  from join_session_outcomes[OF s(2,4), of 7 65 21] st(2) p2 u(1,3)
  have a: "join_session example_class_db 7 65 ''54321'' 21
        = Inr (example_class_db\<lparr>session_participants := session_participants example_class_db @
                 [\<lparr>sp_id = 65, sp_session_id = 52, sp_student_id = 21, joined_at = 7\<rparr>]\<rparr>,
               Success (''Joined successfully'', example_second_session))"
    unfolding c i by blast
  from join_session_outcomes[OF s(1,4), of 7 65 21] st(1) p1
  have b: "join_session example_class_db 7 65 ''12345'' 21
        = Inr (example_class_db, Success (''Already joined'', example_session))"
    unfolding c by blast
  from join_session_outcomes[OF s(3,4), of 7 65 21] st(3)
  have e: "join_session example_class_db 7 65 ''77777'' 21
        = Inr (example_class_db, Failure ''This session has ended'')"
    unfolding c by blast
  from join_session_outcomes[OF s(2,4), of 7 65 29] st(2) p3 u(2)
  have f: "join_session example_class_db 7 65 ''54321'' 29 = Inl IntegrityError"
    unfolding c by blast
  from s(2,4) a b e f show ?thesis by blast
qed

section \<open>Submitting an answer\<close>

lemma answer_key_update [simp]:
  "answer_key s st q (a\<lparr>option_id := opt, submitted_at := now\<rparr>) = answer_key s st q a"
  by (simp add: answer_key_def)

lemma answer_key_fun:
  "answer_key s st q
     = (\<lambda>a. sa_session_id a = s \<and> sa_student_id a = st \<and> sa_question_id a = q)"
  by (rule ext) (simp add: answer_key_def)

lemma option_exists_iff:
  "option_exists d opt \<longleftrightarrow> set_option opt \<subseteq> set (map qo_id (question_options d))"
  by (cases opt) (simp_all add: option_exists_def)

lemma submit_answer_insert:
  assumes "get_student_answer d s st q = None"
    and "new_id \<notin> set (map sa_id (student_answers d))"
    and "s \<in> set (map qs_id (quiz_sessions d))" "st \<in> set (map u_id (users d))"
    and "q \<in> set (map q_id (questions d))" "option_exists d opt"
  shows "submit_answer d now new_id s st q opt =
           Inr (d\<lparr>student_answers := student_answers d @
                    [\<lparr>sa_id = new_id, sa_session_id = s, sa_student_id = st, sa_question_id = q,
                      option_id = opt, submitted_at = now\<rparr>]\<rparr>,
                \<lparr>sa_id = new_id, sa_session_id = s, sa_student_id = st, sa_question_id = q,
                  option_id = opt, submitted_at = now\<rparr>)"
  using assms by (simp add: submit_answer_def create_answer_def Let_def)

lemma submit_answer_rejected:
  assumes "get_student_answer d s st q = None"
    and "s \<notin> set (map qs_id (quiz_sessions d)) \<or> st \<notin> set (map u_id (users d))
         \<or> q \<notin> set (map q_id (questions d)) \<or> \<not> option_exists d opt
         \<or> new_id \<in> set (map sa_id (student_answers d))"
  shows "submit_answer d now new_id s st q opt = Inl IntegrityError"
  using assms by (auto simp: submit_answer_def create_answer_def Let_def)

lemma submit_answer_update:
  assumes "get_student_answer d s st q = Some existing" "option_exists d opt"
  shows "submit_answer d now new_id s st q opt =
           Inr (d\<lparr>student_answers :=
                    update_first (answer_key s st q)
                      (\<lambda>a. a\<lparr>option_id := opt, submitted_at := now\<rparr>) (student_answers d)\<rparr>,
                existing\<lparr>option_id := opt, submitted_at := now\<rparr>)"
  using assms by (simp add: submit_answer_def)

lemma submit_answer_once:
  assumes "length (filter (answer_key s st q) (student_answers d)) \<le> 1"
    and "new_id \<notin> set (map sa_id (student_answers d))"
    and "s \<in> set (map qs_id (quiz_sessions d))" "st \<in> set (map u_id (users d))"
    and "q \<in> set (map q_id (questions d))" "option_exists d opt"
  shows "\<exists>d' a. submit_answer d now new_id s st q opt = Inr (d', a)
           \<and> filter (answer_key s st q) (student_answers d') = [a]
           \<and> filter (\<lambda>x. \<not> answer_key s st q x) (student_answers d')
               = filter (\<lambda>x. \<not> answer_key s st q x) (student_answers d)
           \<and> option_id a = opt \<and> submitted_at a = now
           \<and> users d' = users d \<and> questions d' = questions d
           \<and> question_options d' = question_options d \<and> quiz_sessions d' = quiz_sessions d
           \<and> (get_student_answer d s st q \<noteq> None \<longrightarrow>
                length (student_answers d') = length (student_answers d))"
proof (cases "get_student_answer d s st q")
  case None
  then have e: "filter (answer_key s st q) (student_answers d) = []"
    by (simp add: get_student_answer_def find_None_filter)
  show ?thesis
    unfolding submit_answer_insert[OF None assms(2-6)]
    using None e by (simp add: answer_key_def)
next
  case (Some existing)
  then have "find (answer_key s st q) (student_answers d) = Some existing"
    by (simp add: get_student_answer_def)
  from find_Some_filter[OF this]
  obtain rest where r: "filter (answer_key s st q) (student_answers d) = existing # rest"
    by blast
  with assms(1) have "rest = []" by simp
  then show ?thesis
    unfolding submit_answer_update[OF Some assms(6)]
    using r by (simp add: filter_update_first filter_not_update_first)
qed

text \<open>
  Claim C5.  Let the session, the student and the question be rows of their tables, both
  options be null or rows of \<open>question_options\<close>, the primary key drawn for a new row be
  free, and let the table hold at most one row for the key (session, student, question).
  Then two calls of \<open>submit_answer\<close> for that key both return, and after the second call the
  table holds exactly one row for the key: the row returned by the second call, with the
  second option and the second timestamp.  The second call adds no row, and neither call
  touches a row of another key.  When the table held no row for the key, the first call
  appends exactly one row, with the first option and the first timestamp.
\<close>

theorem submit_answer_upsert:
  assumes "s \<in> set (map qs_id (quiz_sessions d))"
    and "st \<in> set (map u_id (users d))"
    and "q \<in> set (map q_id (questions d))"
    and "set_option o1 \<subseteq> set (map qo_id (question_options d))"
    and "set_option o2 \<subseteq> set (map qo_id (question_options d))"
    and "id1 \<notin> set (map sa_id (student_answers d))"
    and "length (filter (\<lambda>a. sa_session_id a = s \<and> sa_student_id a = st \<and> sa_question_id a = q)
                   (student_answers d)) \<le> 1"
  shows "\<exists>d1 a1 d2 a2.
           submit_answer d t1 id1 s st q o1 = Inr (d1, a1)
         \<and> submit_answer d1 t2 id2 s st q o2 = Inr (d2, a2)
         \<and> filter (\<lambda>a. sa_session_id a = s \<and> sa_student_id a = st \<and> sa_question_id a = q)
             (student_answers d2) = [a2]
         \<and> option_id a2 = o2 \<and> submitted_at a2 = t2
         \<and> length (student_answers d2) = length (student_answers d1)
         \<and> filter (\<lambda>a. \<not> (sa_session_id a = s \<and> sa_student_id a = st \<and> sa_question_id a = q))
             (student_answers d2)
           = filter (\<lambda>a. \<not> (sa_session_id a = s \<and> sa_student_id a = st \<and> sa_question_id a = q))
               (student_answers d)
         \<and> ((\<forall>a \<in> set (student_answers d).
                \<not> (sa_session_id a = s \<and> sa_student_id a = st \<and> sa_question_id a = q)) \<longrightarrow>
              student_answers d1 = student_answers d @
                [\<lparr>sa_id = id1, sa_session_id = s, sa_student_id = st, sa_question_id = q,
                  option_id = o1, submitted_at = t1\<rparr>])"
proof -
  have le: "length (filter (answer_key s st q) (student_answers d)) \<le> 1"
    using assms(7) by (simp add: answer_key_fun)
  have e1: "option_exists d o1" and e2: "option_exists d o2"
    using assms(4,5) by (simp_all add: option_exists_iff)
  from submit_answer_once[OF le assms(6,1,2,3) e1, of t1]
  obtain d1 a1 where
    r1: "submit_answer d t1 id1 s st q o1 = Inr (d1, a1)"
    and k1: "filter (answer_key s st q) (student_answers d1) = [a1]"
    and n1: "filter (\<lambda>x. \<not> answer_key s st q x) (student_answers d1)
               = filter (\<lambda>x. \<not> answer_key s st q x) (student_answers d)"
    and f1: "users d1 = users d" "questions d1 = questions d"
      "question_options d1 = question_options d" "quiz_sessions d1 = quiz_sessions d"
    by blast
  from k1 have "find (answer_key s st q) (student_answers d1) \<noteq> None"
    using find_None_filter[of "answer_key s st q" "student_answers d1"] by auto
  then obtain existing where ex: "get_student_answer d1 s st q = Some existing"
    by (auto simp: get_student_answer_def)
  have e2': "option_exists d1 o2" using e2 unfolding option_exists_def f1 .
  have r2: "submit_answer d1 t2 id2 s st q o2 =
           Inr (d1\<lparr>student_answers :=
                    update_first (answer_key s st q)
                      (\<lambda>a. a\<lparr>option_id := o2, submitted_at := t2\<rparr>) (student_answers d1)\<rparr>,
                existing\<lparr>option_id := o2, submitted_at := t2\<rparr>)"
    by (rule submit_answer_update[OF ex e2'])
  from ex have "find (answer_key s st q) (student_answers d1) = Some existing"
    by (simp add: get_student_answer_def)
  from find_Some_filter[OF this] k1 have a1: "a1 = existing" by auto
  define d2 where "d2 = d1\<lparr>student_answers :=
                    update_first (answer_key s st q)
                      (\<lambda>a. a\<lparr>option_id := o2, submitted_at := t2\<rparr>) (student_answers d1)\<rparr>"
  define a2 where "a2 = existing\<lparr>option_id := o2, submitted_at := t2\<rparr>"
  have k2: "filter (answer_key s st q) (student_answers d2) = [a2]"
    by (simp add: d2_def a2_def filter_update_first k1 a1)
  have n2: "filter (\<lambda>x. \<not> answer_key s st q x) (student_answers d2)
      = filter (\<lambda>x. \<not> answer_key s st q x) (student_answers d)"
    by (simp add: d2_def filter_not_update_first n1)
  have len: "length (student_answers d2) = length (student_answers d1)"
    by (simp add: d2_def)
  have ins: "(\<forall>a \<in> set (student_answers d). \<not> answer_key s st q a) \<longrightarrow>
      student_answers d1 = student_answers d @
        [\<lparr>sa_id = id1, sa_session_id = s, sa_student_id = st, sa_question_id = q,
          option_id = o1, submitted_at = t1\<rparr>]"
  proof
    assume "\<forall>a \<in> set (student_answers d). \<not> answer_key s st q a"
    then have "get_student_answer d s st q = None"
      by (simp add: get_student_answer_def find_None_iff)
    from submit_answer_insert[OF this assms(6,1,2,3) e1, of t1] r1
    show "student_answers d1 = student_answers d @
        [\<lparr>sa_id = id1, sa_session_id = s, sa_student_id = st, sa_question_id = q,
          option_id = o1, submitted_at = t1\<rparr>]"
      by auto
  qed
  have "submit_answer d t1 id1 s st q o1 = Inr (d1, a1)
         \<and> submit_answer d1 t2 id2 s st q o2 = Inr (d2, a2)
         \<and> filter (answer_key s st q) (student_answers d2) = [a2]
         \<and> option_id a2 = o2 \<and> submitted_at a2 = t2
         \<and> length (student_answers d2) = length (student_answers d1)
         \<and> filter (\<lambda>x. \<not> answer_key s st q x) (student_answers d2)
           = filter (\<lambda>x. \<not> answer_key s st q x) (student_answers d)
         \<and> ((\<forall>a \<in> set (student_answers d). \<not> answer_key s st q a) \<longrightarrow>
              student_answers d1 = student_answers d @
                [\<lparr>sa_id = id1, sa_session_id = s, sa_student_id = st, sa_question_id = q,
                  option_id = o1, submitted_at = t1\<rparr>])"
    using r1 r2 k2 n2 len ins by (simp add: d2_def a2_def)
  then show ?thesis unfolding answer_key_fun by blast
qed

theorem submit_answer_upsert_witness:
  "51 \<in> set (map qs_id (quiz_sessions example_class_db))
   \<and> 23 \<in> set (map u_id (users example_class_db))
   \<and> 31 \<in> set (map q_id (questions example_class_db))
   \<and> set_option (Some 41) \<subseteq> set (map qo_id (question_options example_class_db))
   \<and> set_option (Some 42) \<subseteq> set (map qo_id (question_options example_class_db))
   \<and> 73 \<notin> set (map sa_id (student_answers example_class_db))
   \<and> length (filter (\<lambda>a. sa_session_id a = 51 \<and> sa_student_id a = 23 \<and> sa_question_id a = 31)
               (student_answers example_class_db)) \<le> 1
   \<and> (\<exists>d1 d2.
        submit_answer example_class_db 10 73 51 23 31 (Some 41)
          = Inr (d1, \<lparr>sa_id = 73, sa_session_id = 51, sa_student_id = 23, sa_question_id = 31,
                      option_id = Some 41, submitted_at = 10\<rparr>)
      \<and> student_answers d1 = student_answers example_class_db @
          [\<lparr>sa_id = 73, sa_session_id = 51, sa_student_id = 23, sa_question_id = 31,
            option_id = Some 41, submitted_at = 10\<rparr>]
      \<and> submit_answer d1 20 74 51 23 31 (Some 42)
          = Inr (d2, \<lparr>sa_id = 73, sa_session_id = 51, sa_student_id = 23, sa_question_id = 31,
                      option_id = Some 42, submitted_at = 20\<rparr>)
      \<and> filter (\<lambda>a. sa_session_id a = 51 \<and> sa_student_id a = 23 \<and> sa_question_id a = 31)
          (student_answers d2)
          = [\<lparr>sa_id = 73, sa_session_id = 51, sa_student_id = 23, sa_question_id = 31,
              option_id = Some 42, submitted_at = 20\<rparr>]
      \<and> length (student_answers d2) = length (student_answers example_class_db) + 1)"
proof -
  have h: "51 \<in> set (map qs_id (quiz_sessions example_class_db))"
    "23 \<in> set (map u_id (users example_class_db))"
    "31 \<in> set (map q_id (questions example_class_db))"
    "set_option (Some 41) \<subseteq> set (map qo_id (question_options example_class_db))"
    "set_option (Some 42) \<subseteq> set (map qo_id (question_options example_class_db))"
    "73 \<notin> set (map sa_id (student_answers example_class_db))"
    by (simp_all add: example_class_db_def example_session_def example_second_session_def
        example_ended_session_def example_answer_def example_bob_answer_def example_bob_wrong_answer_def
        example_dee_answer_def)
  have k: "filter (\<lambda>a. sa_session_id a = 51 \<and> sa_student_id a = 23 \<and> sa_question_id a = 31)
               (student_answers example_class_db) = []"
    by (simp add: example_class_db_def example_answer_def example_bob_answer_def example_bob_wrong_answer_def
        example_dee_answer_def)
  then have le: "length (filter (\<lambda>a. sa_session_id a = 51 \<and> sa_student_id a = 23 \<and> sa_question_id a = 31)
               (student_answers example_class_db)) \<le> 1"
    by simp
  from k have none: "\<forall>a \<in> set (student_answers example_class_db).
      \<not> (sa_session_id a = 51 \<and> sa_student_id a = 23 \<and> sa_question_id a = 31)"
    by (simp add: filter_empty_conv)
  from submit_answer_upsert[OF h le, of 10 20 74]
  obtain d1 a1 d2 a2 where
    r1: "submit_answer example_class_db 10 73 51 23 31 (Some 41) = Inr (d1, a1)"
    and r2: "submit_answer d1 20 74 51 23 31 (Some 42) = Inr (d2, a2)"
    and f: "filter (\<lambda>a. sa_session_id a = 51 \<and> sa_student_id a = 23 \<and> sa_question_id a = 31)
             (student_answers d2) = [a2]"
    and o: "option_id a2 = Some 42" "submitted_at a2 = 20"
    and l: "length (student_answers d2) = length (student_answers d1)"
    and i: "(\<forall>a \<in> set (student_answers example_class_db).
                \<not> (sa_session_id a = 51 \<and> sa_student_id a = 23 \<and> sa_question_id a = 31)) \<longrightarrow>
              student_answers d1 = student_answers example_class_db @
                [\<lparr>sa_id = 73, sa_session_id = 51, sa_student_id = 23, sa_question_id = 31,
                  option_id = Some 41, submitted_at = 10\<rparr>]"
    by blast
  from i none have s1: "student_answers d1 = student_answers example_class_db @
                [\<lparr>sa_id = 73, sa_session_id = 51, sa_student_id = 23, sa_question_id = 31,
                  option_id = Some 41, submitted_at = 10\<rparr>]"
    by blast
  have g: "get_student_answer example_class_db 51 23 31 = None"
    using none by (simp add: get_student_answer_def find_None_iff answer_key_def)
  have a1: "a1 = \<lparr>sa_id = 73, sa_session_id = 51, sa_student_id = 23, sa_question_id = 31,
                  option_id = Some 41, submitted_at = 10\<rparr>"
    using r1 h by (simp add: submit_answer_def g create_answer_def Let_def option_exists_def)
  have g1: "get_student_answer d1 51 23 31
      = Some \<lparr>sa_id = 73, sa_session_id = 51, sa_student_id = 23, sa_question_id = 31,
               option_id = Some 41, submitted_at = 10\<rparr>"
    unfolding get_student_answer_def s1
    by (simp add: answer_key_def example_class_db_def example_answer_def example_bob_answer_def example_bob_wrong_answer_def
        example_dee_answer_def)
  have a2: "a2 = \<lparr>sa_id = 73, sa_session_id = 51, sa_student_id = 23, sa_question_id = 31,
                  option_id = Some 42, submitted_at = 20\<rparr>"
    using r2 by (simp add: submit_answer_def g1 split: if_splits)
  from r1 r2 f l s1 have "submit_answer example_class_db 10 73 51 23 31 (Some 41)
          = Inr (d1, \<lparr>sa_id = 73, sa_session_id = 51, sa_student_id = 23, sa_question_id = 31,
                      option_id = Some 41, submitted_at = 10\<rparr>)
      \<and> student_answers d1 = student_answers example_class_db @
          [\<lparr>sa_id = 73, sa_session_id = 51, sa_student_id = 23, sa_question_id = 31,
            option_id = Some 41, submitted_at = 10\<rparr>]
      \<and> submit_answer d1 20 74 51 23 31 (Some 42)
          = Inr (d2, \<lparr>sa_id = 73, sa_session_id = 51, sa_student_id = 23, sa_question_id = 31,
                      option_id = Some 42, submitted_at = 20\<rparr>)
      \<and> filter (\<lambda>a. sa_session_id a = 51 \<and> sa_student_id a = 23 \<and> sa_question_id a = 31)
          (student_answers d2)
          = [\<lparr>sa_id = 73, sa_session_id = 51, sa_student_id = 23, sa_question_id = 31,
              option_id = Some 42, submitted_at = 20\<rparr>]
      \<and> length (student_answers d2) = length (student_answers example_class_db) + 1"
    unfolding a1 a2 by simp
  then have "\<exists>d1 d2.
        submit_answer example_class_db 10 73 51 23 31 (Some 41)
          = Inr (d1, \<lparr>sa_id = 73, sa_session_id = 51, sa_student_id = 23, sa_question_id = 31,
                      option_id = Some 41, submitted_at = 10\<rparr>)
      \<and> student_answers d1 = student_answers example_class_db @
          [\<lparr>sa_id = 73, sa_session_id = 51, sa_student_id = 23, sa_question_id = 31,
            option_id = Some 41, submitted_at = 10\<rparr>]
      \<and> submit_answer d1 20 74 51 23 31 (Some 42)
          = Inr (d2, \<lparr>sa_id = 73, sa_session_id = 51, sa_student_id = 23, sa_question_id = 31,
                      option_id = Some 42, submitted_at = 20\<rparr>)
      \<and> filter (\<lambda>a. sa_session_id a = 51 \<and> sa_student_id a = 23 \<and> sa_question_id a = 31)
          (student_answers d2)
          = [\<lparr>sa_id = 73, sa_session_id = 51, sa_student_id = 23, sa_question_id = 31,
              option_id = Some 42, submitted_at = 20\<rparr>]
      \<and> length (student_answers d2) = length (student_answers example_class_db) + 1"
    by blast
  with h le show ?thesis by blast
qed
section \<open>Session lifecycle\<close>

lemma get_session_after_update_current:
  assumes "get_session_by_id d sid = Some session"
  shows "get_session_by_id (fst (update_current_question d sid qid)) sid
           = Some (session\<lparr>current_question_id := Some qid\<rparr>)"
  using assms
  by (simp add: update_current_question_def get_session_by_id_def find_update_first)

lemma get_session_after_update_status:
  assumes "get_session_by_id d sid = Some session"
  shows "get_session_by_id (fst (update_status d now sid st)) sid = Some (stamp now st session)"
proof -
  have "\<And>x. qs_id x = sid \<Longrightarrow> qs_id (stamp now st x) = sid"
    by (simp add: stamp_def Let_def)
  then show ?thesis using assms
    by (simp add: update_status_def get_session_by_id_def find_update_first)
qed

lemma questions_update_current [simp]:
  "questions (fst (update_current_question d sid qid)) = questions d"
  by (simp add: update_current_question_def split: option.splits)

lemma questions_update_status [simp]:
  "questions (fst (update_status d now sid st)) = questions d"
  by (simp add: update_status_def split: option.splits)

lemma get_questions_update_current [simp]:
  "get_questions_by_quiz (fst (update_current_question d sid qid)) quiz = get_questions_by_quiz d quiz"
  by (simp add: get_questions_by_quiz_def)

lemma get_questions_update_status [simp]:
  "get_questions_by_quiz (fst (update_status d now sid st)) quiz = get_questions_by_quiz d quiz"
  by (simp add: get_questions_by_quiz_def)

lemma stamp_fields [simp]:
  "current_question_id (stamp now st s) = current_question_id s"
  "qs_quiz_id (stamp now st s) = qs_quiz_id s"
  "qs_id (stamp now st s) = qs_id s"
  "status (stamp now st s) = st"
  by (simp_all add: stamp_def Let_def)

lemma pointers_update_status:
  "map current_question_id (quiz_sessions (fst (update_status d now sid st)))
     = map current_question_id (quiz_sessions d)"
  by (simp add: update_status_def map_update_first_same split: option.splits)


lemma find_current_idx_range:
  "find_current_idx cur qs k = - 1 \<or> (k \<le> find_current_idx cur qs k \<and> find_current_idx cur qs k < k + int (length qs))"
  by (induction qs arbitrary: k) (auto, force+)

lemma current_idx_range:
  "- 1 \<le> current_idx session qs" "current_idx session qs < int (length qs)"
proof -
  show "- 1 \<le> current_idx session qs"
  proof (cases "current_question_id session")
    case None
    then show ?thesis by (simp add: current_idx_def)
  next
    case (Some cur)
    then show ?thesis using find_current_idx_range[of cur qs 0] by (auto simp: current_idx_def)
  qed
  show "current_idx session qs < int (length qs)"
  proof (cases "current_question_id session")
    case None
    then show ?thesis by (simp add: current_idx_def)
  next
    case (Some cur)
    then show ?thesis using find_current_idx_range[of cur qs 0] by (auto simp: current_idx_def)
  qed
qed

lemma find_current_idx_found:
  assumes "find (\<lambda>q. q_id q = cur) qs = Some prev"
  shows "\<exists>i. find_current_idx cur qs k = k + int i \<and> i < length qs \<and> qs ! i = prev"
  using assms
proof (induction qs arbitrary: k)
  case Nil
  then show ?case by simp
next
  case (Cons q qs)
  show ?case
  proof (cases "q_id q = cur")
    case True
    with Cons.prems have "q = prev" by simp
    with True show ?thesis by (intro exI[of _ 0]) simp
  next
    case False
    with Cons.prems have "find (\<lambda>q. q_id q = cur) qs = Some prev" by simp
    from Cons.IH[OF this, of "k + 1"]
    obtain i where i: "find_current_idx cur qs (k + 1) = k + 1 + int i" "i < length qs" "qs ! i = prev"
      by blast
    with False show ?thesis by (intro exI[of _ "Suc i"]) simp
  qed
qed

lemma find_current_idx_last:
  assumes "distinct (map q_id qs)" "qs \<noteq> []"
  shows "find_current_idx (q_id (last qs)) qs k = k + int (length qs) - 1"
  using assms
proof (induction qs arbitrary: k)
  case Nil
  then show ?case by simp
next
  case (Cons q qs)
  show ?case
  proof (cases "qs = []")
    case True
    then show ?thesis by simp
  next
    case False
    then have "last qs \<in> set qs" by simp
    then have "q_id q \<noteq> q_id (last qs)" using Cons.prems(1) by auto
    moreover have "distinct (map q_id qs)" using Cons.prems(1) by simp
    ultimately show ?thesis using False Cons.IH[of "k + 1"] by simp
  qed
qed

lemma distinct_ids_by_quiz:
  assumes "distinct (map q_id (questions d))"
  shows "distinct (map q_id (get_questions_by_quiz d quiz))"
proof -
  from assms have d: "distinct (questions d)" and i: "inj_on q_id (set (questions d))"
    by (simp_all add: distinct_map)
  have "inj_on q_id (set (filter (\<lambda>q. q_quiz_id q = quiz) (questions d)))"
    by (rule inj_on_subset[OF i]) auto
  then show ?thesis using d by (simp add: get_questions_by_quiz_def distinct_map)
qed

lemma find_by_distinct_id:
  assumes "distinct (map q_id qs)" "x \<in> set qs"
  shows "find (\<lambda>q. q_id q = q_id x) qs = Some x"
  using assms by (induction qs) auto

lemma orders_strictly_increasing:
  assumes "distinct (map question_order (get_questions_by_quiz d quiz))"
    and "i < j" "j < length (get_questions_by_quiz d quiz)"
  shows "question_order (get_questions_by_quiz d quiz ! i) < question_order (get_questions_by_quiz d quiz ! j)"
proof -
  let ?qs = "get_questions_by_quiz d quiz"
  have "sorted (map question_order ?qs)" by (simp add: get_questions_by_quiz_def)
  with assms(1) have "sorted_wrt (<) (map question_order ?qs)"
    by (simp add: strict_sorted_iff)
  from sorted_wrt_nth_less[OF this, of i j] assms(2,3) show ?thesis by simp
qed

lemma next_question_fail:
  assumes "get_session_by_id d sid = Some session"
    and "int (length (get_questions_by_quiz d (qs_quiz_id session)))
           \<le> current_idx session (get_questions_by_quiz d (qs_quiz_id session)) + 1"
  shows "next_question d sid = (d, Failure ''No more questions'')"
  using assms by (simp add: next_question_def Let_def)



lemma not_before_refl [simp]: "not_before x x"
  by (cases x) simp_all

lemma not_before_trans: "not_before x y \<Longrightarrow> not_before y z \<Longrightarrow> not_before x z"
  by (cases x; cases y; cases z) simp_all

lemma get_questions_cong:
  "questions d' = questions d \<Longrightarrow> get_questions_by_quiz d' quiz = get_questions_by_quiz d quiz"
  by (simp add: get_questions_by_quiz_def)

lemma next_question_outcome:
  assumes "get_session_by_id d sid = Some session"
  shows "next_question d sid = (d, Failure ''No more questions'')
       \<or> (\<exists>nq. next_question d sid
              = (fst (update_current_question d sid (q_id nq)), Success nq)
            \<and> nq = get_questions_by_quiz d (qs_quiz_id session)
                       ! nat (current_idx session (get_questions_by_quiz d (qs_quiz_id session)) + 1)
            \<and> current_idx session (get_questions_by_quiz d (qs_quiz_id session)) + 1
                 < int (length (get_questions_by_quiz d (qs_quiz_id session))))"
  using assms by (simp add: next_question_def Let_def)

lemma next_success_order:
  assumes s: "get_session_by_id d sid = Some session"
    and ids: "distinct (map q_id (questions d))"
    and ords: "distinct (map question_order (get_questions_by_quiz d (qs_quiz_id session)))"
    and ok: "next_question d sid = (d', Success nq)"
  shows "current_order d' sid = Some (question_order nq)"
    and "strictly_before (current_order d sid) (question_order nq)"
    and "get_session_by_id d' sid = Some (session\<lparr>current_question_id := Some (q_id nq)\<rparr>)"
    and "questions d' = questions d"
proof -
  let ?qs = "get_questions_by_quiz d (qs_quiz_id session)"
  let ?n = "nat (current_idx session ?qs + 1)"
  from next_question_outcome[OF s] ok
  have d': "d' = fst (update_current_question d sid (q_id nq))"
    and nx: "nq = ?qs ! ?n"
    and lt: "current_idx session ?qs + 1 < int (length ?qs)"
    by auto
  have n_lt: "?n < length ?qs" using lt current_idx_range(1)[of session ?qs] by simp
  have mem: "nq \<in> set ?qs" unfolding nx using n_lt by (rule nth_mem)
  show g: "get_session_by_id d' sid = Some (session\<lparr>current_question_id := Some (q_id nq)\<rparr>)"
    unfolding d' by (rule get_session_after_update_current[OF s])
  show q: "questions d' = questions d" unfolding d' by simp
  have f: "find (\<lambda>q. q_id q = q_id nq) ?qs = Some nq"
    by (rule find_by_distinct_id[OF distinct_ids_by_quiz[OF ids] mem])
  show "current_order d' sid = Some (question_order nq)"
    by (simp add: current_order_def g get_questions_cong[OF q] f)
  show "strictly_before (current_order d sid) (question_order nq)"
  proof (cases "current_order d sid")
    case None
    then show ?thesis by simp
  next
    case (Some ord)
    then obtain cur prev where cur: "current_question_id session = Some cur"
      and prev: "find (\<lambda>q. q_id q = cur) ?qs = Some prev" and o: "ord = question_order prev"
      by (auto simp: current_order_def s split: option.splits)
    from find_current_idx_found[OF prev, of 0]
    obtain i where i: "find_current_idx cur ?qs 0 = int i" "i < length ?qs" "?qs ! i = prev"
      by auto
    have idx: "current_idx session ?qs = int i" by (simp add: current_idx_def cur i(1))
    have n: "?n = Suc i" by (simp add: idx)
    have "question_order (?qs ! i) < question_order (?qs ! Suc i)"
      using n_lt by (intro orders_strictly_increasing[OF ords]) (simp_all add: n)
    then show ?thesis by (simp add: Some o i(3) nx n)
  qed
qed

lemma advance_step:
  assumes s: "get_session_by_id d sid = Some session"
    and ids: "distinct (map q_id (questions d))"
    and ords: "distinct (map question_order (get_questions_by_quiz d (qs_quiz_id session)))"
  shows "\<exists>session'. get_session_by_id (fst (next_question d sid)) sid = Some session'
           \<and> qs_quiz_id session' = qs_quiz_id session"
    and "questions (fst (next_question d sid)) = questions d"
    and "not_before (current_order d sid) (current_order (fst (next_question d sid)) sid)"
proof -
  from next_question_outcome[OF s]
  consider (fail) "next_question d sid = (d, Failure ''No more questions'')"
    | (ok) nq where "next_question d sid = (fst (update_current_question d sid (q_id nq)), Success nq)"
    by blast
  then have "(\<exists>session'. get_session_by_id (fst (next_question d sid)) sid = Some session'
           \<and> qs_quiz_id session' = qs_quiz_id session)
     \<and> questions (fst (next_question d sid)) = questions d
     \<and> not_before (current_order d sid) (current_order (fst (next_question d sid)) sid)"
  proof cases
    case fail
    then show ?thesis using s by simp
  next
    case ok
    note r = next_success_order[OF s ids ords ok]
    have "not_before (current_order d sid) (Some (question_order nq))"
      using r(2) by (cases "current_order d sid") simp_all
    then show ?thesis using r(1,3,4) by (simp add: ok)
  qed
  then show "\<exists>session'. get_session_by_id (fst (next_question d sid)) sid = Some session'
           \<and> qs_quiz_id session' = qs_quiz_id session"
    and "questions (fst (next_question d sid)) = questions d"
    and "not_before (current_order d sid) (current_order (fst (next_question d sid)) sid)"
    by blast+
qed

lemma end_step:
  assumes s: "get_session_by_id d sid = Some session"
  shows "get_session_by_id (fst (end_session d now sid)) sid = Some (stamp now CLOSED session)"
    and "questions (fst (end_session d now sid)) = questions d"
    and "current_order (fst (end_session d now sid)) sid = current_order d sid"
proof -
  show g: "get_session_by_id (fst (end_session d now sid)) sid = Some (stamp now CLOSED session)"
    unfolding end_session_def by (rule get_session_after_update_status[OF s])
  show "questions (fst (end_session d now sid)) = questions d"
    by (simp add: end_session_def)
  show "current_order (fst (end_session d now sid)) sid = current_order d sid"
    using g by (simp add: current_order_def s end_session_def split: option.splits)
qed

lemma run_monotone:
  assumes "get_session_by_id d sid = Some session"
    and "distinct (map q_id (questions d))"
    and "distinct (map question_order (get_questions_by_quiz d (qs_quiz_id session)))"
  shows "not_before (current_order d sid) (current_order (fold (apply_op sid) ops d) sid)"
  using assms
proof (induction ops arbitrary: d session)
  case Nil
  then show ?case by simp
next
  case (Cons op ops)
  have "\<exists>session'. get_session_by_id (apply_op sid op d) sid = Some session'
          \<and> qs_quiz_id session' = qs_quiz_id session
          \<and> questions (apply_op sid op d) = questions d
          \<and> not_before (current_order d sid) (current_order (apply_op sid op d) sid)"
  proof (cases op)
    case Advance
    from advance_step[OF Cons.prems] show ?thesis by (auto simp: Advance)
  next
    case (End now)
    from end_step[OF Cons.prems(1), of now] show ?thesis by (simp add: End)
  qed
  then obtain session' where s': "get_session_by_id (apply_op sid op d) sid = Some session'"
    and quiz: "qs_quiz_id session' = qs_quiz_id session"
    and qs: "questions (apply_op sid op d) = questions d"
    and step: "not_before (current_order d sid) (current_order (apply_op sid op d) sid)"
    by blast
  have "not_before (current_order (apply_op sid op d) sid)
          (current_order (fold (apply_op sid) ops (apply_op sid op d)) sid)"
    using Cons.prems(2,3) by (intro Cons.IH[OF s']) (simp_all add: qs quiz get_questions_cong[OF qs])
  with step show ?case by (auto intro: not_before_trans)
qed

lemma start_session_pointer:
  assumes "get_session_by_id d sid = Some session"
    and "get_questions_by_quiz d (qs_quiz_id session) = first # rest"
  shows "\<exists>started. start_session d now sid = (fst (start_session d now sid), Success started)
           \<and> get_session_by_id (fst (start_session d now sid)) sid = Some started
           \<and> current_question_id started = Some (q_id first)
           \<and> status started = ACTIVE"
proof -
  let ?d1 = "fst (update_status d now sid ACTIVE)"
  let ?d2 = "fst (update_current_question ?d1 sid (q_id first))"
  have g1: "get_session_by_id ?d1 sid = Some (stamp now ACTIVE session)"
    by (rule get_session_after_update_status[OF assms(1)])
  have g2: "get_session_by_id ?d2 sid
      = Some ((stamp now ACTIVE session)\<lparr>current_question_id := Some (q_id first)\<rparr>)"
    by (rule get_session_after_update_current[OF g1])
  show ?thesis using assms g2 by (simp add: start_session_def Let_def)
qed

lemma last_sort_key_max:
  fixes f :: "'a \<Rightarrow> int"
  assumes "distinct (map f xs)" "x \<in> set xs" "\<forall>y \<in> set xs. f y \<le> f x"
  shows "last (sort_key f xs) = x"
proof -
  let ?ys = "sort_key f xs"
  have xne: "xs \<noteq> []" using assms(2) by auto
  have ne: "?ys \<noteq> []" using assms(2) by (metis empty_iff list.set(1) set_sort)
  have "x \<in> set ?ys" using assms(2) by simp
  then obtain i where i: "i < length ?ys" "?ys ! i = x" unfolding in_set_conv_nth by blast
  have srt: "sorted (map f ?ys)" by simp
  have "i \<le> length ?ys - 1" using i(1) by simp
  moreover have "length ?ys - 1 < length (map f ?ys)" using xne by simp
  ultimately have "map f ?ys ! i \<le> map f ?ys ! (length ?ys - 1)"
    using srt by (simp only: sorted_iff_nth_mono)
  then have "f x \<le> f (last ?ys)" using i ne xne by (simp add: last_conv_nth)
  moreover have l: "last ?ys \<in> set xs" using ne last_in_set[OF ne] by simp
  ultimately have "f (last ?ys) = f x" using assms(3) by force
  moreover have "inj_on f (set xs)" using assms(1) by (simp add: distinct_map)
  ultimately show ?thesis using l assms(2) by (auto dest: inj_onD)
qed

text \<open>
  Claim C6.  Let \<open>session\<close> be a row of \<open>quiz_sessions\<close>, session ids and question ids being
  primary keys, and let the questions of its quiz have pairwise different orders.  When
  the quiz has no question at all, or when the current question is the question of the
  quiz with the greatest order, \<open>next_question\<close> answers \<open>'No more questions'\<close> and returns
  the database as it was: no row of any table has changed, so the status, the current
  question, the start time and the end time of the session are as before the call.
\<close>

theorem next_question_no_more:
  assumes "session \<in> set (quiz_sessions d)"
    and "distinct (map qs_id (quiz_sessions d))"
    and "distinct (map q_id (questions d))"
    and "distinct (map question_order
           (filter (\<lambda>q. q_quiz_id q = qs_quiz_id session) (questions d)))"
    and "(\<forall>q \<in> set (questions d). q_quiz_id q \<noteq> qs_quiz_id session)
         \<or> (\<exists>cur \<in> set (questions d).
               q_quiz_id cur = qs_quiz_id session
             \<and> current_question_id session = Some (q_id cur)
             \<and> (\<forall>q \<in> set (questions d).
                  q_quiz_id q = qs_quiz_id session \<longrightarrow> question_order q \<le> question_order cur))"
  shows "next_question d (qs_id session) = (d, Failure ''No more questions'')
       \<and> quiz_sessions (fst (next_question d (qs_id session))) = quiz_sessions d"
proof -
  let ?f = "filter (\<lambda>q. q_quiz_id q = qs_quiz_id session) (questions d)"
  let ?qs = "get_questions_by_quiz d (qs_quiz_id session)"
  have qs: "?qs = sort_key question_order ?f" by (simp add: get_questions_by_quiz_def)
  have s: "get_session_by_id d (qs_id session) = Some session"
    unfolding get_session_by_id_def by (rule find_by_distinct_key[OF assms(2,1)])
  have "int (length ?qs) \<le> current_idx session ?qs + 1"
    using assms(5)
  proof
    assume "\<forall>q \<in> set (questions d). q_quiz_id q \<noteq> qs_quiz_id session"
    then have "?f = []" by (simp add: filter_empty_conv)
    then have "?qs = []" by (simp add: qs)
    then show ?thesis using current_idx_range(1)[of session ?qs] by simp
  next
    assume "\<exists>cur \<in> set (questions d).
               q_quiz_id cur = qs_quiz_id session
             \<and> current_question_id session = Some (q_id cur)
             \<and> (\<forall>q \<in> set (questions d).
                  q_quiz_id q = qs_quiz_id session \<longrightarrow> question_order q \<le> question_order cur)"
    then obtain cur where c: "cur \<in> set ?f" "current_question_id session = Some (q_id cur)"
      and m: "\<forall>q \<in> set ?f. question_order q \<le> question_order cur"
      by auto
    have l: "last ?qs = cur" unfolding qs by (rule last_sort_key_max[OF assms(4) c(1) m])
    have ne: "?qs \<noteq> []" using c(1) unfolding qs by (metis empty_iff list.set(1) set_sort)
    have "find_current_idx (q_id (last ?qs)) ?qs 0 = 0 + int (length ?qs) - 1"
      by (rule find_current_idx_last[OF distinct_ids_by_quiz[OF assms(3)] ne])
    then show ?thesis by (simp add: current_idx_def c(2) l)
  qed
  from next_question_fail[OF s this] show ?thesis by simp
qed

lemma example_final_rows:
  "distinct (map qs_id (quiz_sessions example_final_db))"
  "distinct (map q_id (questions example_final_db))"
  "example_session\<lparr>current_question_id := Some 32\<rparr> \<in> set (quiz_sessions example_final_db)"
  "example_second_session\<lparr>qs_quiz_id := 83\<rparr> \<in> set (quiz_sessions example_final_db)"
  by (simp_all add: example_final_db_def example_class_db_def example_session_def
      example_second_session_def example_ended_session_def)

theorem next_question_no_more_witness:
  "example_session\<lparr>current_question_id := Some 32\<rparr> \<in> set (quiz_sessions example_final_db)
   \<and> example_second_session\<lparr>qs_quiz_id := 83\<rparr> \<in> set (quiz_sessions example_final_db)
   \<and> distinct (map qs_id (quiz_sessions example_final_db))
   \<and> distinct (map q_id (questions example_final_db))
   \<and> map question_order (filter (\<lambda>q. q_quiz_id q = 81) (questions example_final_db)) = [2, 1]
   \<and> filter (\<lambda>q. q_quiz_id q = 83) (questions example_final_db) = []
   \<and> next_question example_final_db 51 = (example_final_db, Failure ''No more questions'')
   \<and> next_question example_final_db 52 = (example_final_db, Failure ''No more questions'')"
proof -
  note r = example_final_rows
  let ?s = "example_session\<lparr>current_question_id := Some 32\<rparr>"
  let ?t = "example_second_session\<lparr>qs_quiz_id := 83\<rparr>"
  have i: "qs_id ?s = 51" "qs_quiz_id ?s = 81" "qs_id ?t = 52" "qs_quiz_id ?t = 83"
    by (simp_all add: example_session_def example_second_session_def)
  have o1: "map question_order (filter (\<lambda>q. q_quiz_id q = 81) (questions example_final_db)) = [2, 1]"
    by (simp add: example_final_db_def example_class_db_def)
  have o2: "filter (\<lambda>q. q_quiz_id q = 83) (questions example_final_db) = []"
    by (simp add: example_final_db_def example_class_db_def)
  have d1: "distinct (map question_order
              (filter (\<lambda>q. q_quiz_id q = qs_quiz_id ?s) (questions example_final_db)))"
    unfolding i o1 by simp
  have d2: "distinct (map question_order
              (filter (\<lambda>q. q_quiz_id q = qs_quiz_id ?t) (questions example_final_db)))"
    unfolding i o2 by simp
  have c1: "\<exists>cur \<in> set (questions example_final_db).
               q_quiz_id cur = qs_quiz_id ?s
             \<and> current_question_id ?s = Some (q_id cur)
             \<and> (\<forall>q \<in> set (questions example_final_db).
                  q_quiz_id q = qs_quiz_id ?s \<longrightarrow> question_order q \<le> question_order cur)"
    unfolding i
    by (rule bexI[of _ "\<lparr>q_id = 32, q_quiz_id = 81, question_order = 2, time_limit = 30\<rparr>"])
      (simp_all add: example_final_db_def example_class_db_def)
  have c2: "\<forall>q \<in> set (questions example_final_db). q_quiz_id q \<noteq> qs_quiz_id ?t"
    unfolding i by (simp add: example_final_db_def example_class_db_def)
  from next_question_no_more[OF r(3,1,2) d1 disjI2[OF c1]]
  have a: "next_question example_final_db 51 = (example_final_db, Failure ''No more questions'')"
    unfolding i by blast
  from next_question_no_more[OF r(4,1,2) d2 disjI1[OF c2]]
  have b: "next_question example_final_db 52 = (example_final_db, Failure ''No more questions'')"
    unfolding i by blast
  from r o1 o2 a b show ?thesis by blast
qed




text \<open>
  Claim C2, as stated, fails: \<open>start_session\<close> has no status guard and always makes the
  first question current.  After an advance to the second question, a further
  \<open>start_session\<close> moves the pointer back to the first one.
\<close>

theorem pointer_reset_counterexample:
  "current_order example_db 51 = Some 1
   \<and> current_order (fst (next_question example_db 51)) 51 = Some 2
   \<and> current_order (fst (start_session (fst (next_question example_db 51)) 60000000 51)) 51
       = Some 1"
  by code_simp

text \<open>
  Claim C2, amended.  With question ids and question orders unique, the order of the
  session's current question never decreases along any sequence of \<open>next_question\<close> and
  \<open>end_session\<close> calls, and a successful \<open>next_question\<close> makes current a question of
  strictly larger order than the previous current question.  \<open>start_session\<close> is not
  part of the guarantee: whenever it succeeds it makes the first question current.
\<close>

theorem pointer_moves_forward:
  assumes "get_session_by_id d sid = Some session"
    and "distinct (map q_id (questions d))"
    and "distinct (map question_order (get_questions_by_quiz d (qs_quiz_id session)))"
  shows "not_before (current_order d sid) (current_order (fold (apply_op sid) ops d) sid)
       \<and> (\<forall>d' nq. next_question d sid = (d', Success nq) \<longrightarrow>
            current_order d' sid = Some (question_order nq)
            \<and> strictly_before (current_order d sid) (question_order nq))
       \<and> (\<forall>first rest. get_questions_by_quiz d (qs_quiz_id session) = first # rest \<longrightarrow>
            map_option current_question_id (get_session_by_id (fst (start_session d now sid)) sid)
              = Some (Some (q_id first)))"
proof (intro conjI allI impI)
  show "not_before (current_order d sid) (current_order (fold (apply_op sid) ops d) sid)"
    by (rule run_monotone[OF assms])
next
  fix d' nq
  assume ok: "next_question d sid = (d', Success nq)"
  show "current_order d' sid = Some (question_order nq)"
    by (rule next_success_order(1)[OF assms ok])
  show "strictly_before (current_order d sid) (question_order nq)"
    by (rule next_success_order(2)[OF assms ok])
next
  fix first rest
  assume "get_questions_by_quiz d (qs_quiz_id session) = first # rest"
  from start_session_pointer[OF assms(1) this, of now]
  show "map_option current_question_id (get_session_by_id (fst (start_session d now sid)) sid)
              = Some (Some (q_id first))"
    by auto
qed

theorem pointer_moves_forward_witness:
  "get_session_by_id example_db 51 = Some example_session
   \<and> distinct (map q_id (questions example_db))
   \<and> distinct (map question_order (get_questions_by_quiz example_db (qs_quiz_id example_session)))
   \<and> current_order example_db 51 = Some 1
   \<and> not_before (Some 1) (current_order (fold (apply_op 51) [Advance, End 70000000, Advance] example_db) 51)"
proof -
  have s: "get_session_by_id example_db 51 = Some example_session"
    by (simp add: get_session_by_id_def example_db_def example_session_def)
  have i: "distinct (map q_id (questions example_db))"
    by (simp add: example_db_def)
  have o: "distinct (map question_order (get_questions_by_quiz example_db (qs_quiz_id example_session)))"
    by (simp add: get_questions_by_quiz_def example_db_def example_session_def)
  have c: "current_order example_db 51 = Some 1" by code_simp
  from pointer_moves_forward[OF s i o, of "[Advance, End 70000000, Advance]" 0]
  have "not_before (current_order example_db 51)
          (current_order (fold (apply_op 51) [Advance, End 70000000, Advance] example_db) 51)"
    by blast
  with s i o c show ?thesis by simp
qed

section \<open>The leaderboard\<close>

lemma tuple_le_total: "tuple_le a b \<or> tuple_le b a"
  by (cases a; cases b) auto

lemma tuple_le_trans: "tuple_le a b \<Longrightarrow> tuple_le b c \<Longrightarrow> tuple_le a c"
  by (cases a; cases b; cases c) auto

lemma set_insort_desc [simp]: "set (insort_desc x ys) = insert x (set ys)"
  by (induction ys) auto

lemma length_insort_desc [simp]: "length (insort_desc x ys) = Suc (length ys)"
  by (induction ys) auto

lemma sorted_insort_desc:
  assumes "sorted_wrt (\<lambda>a b. tuple_le (sort_key_of b) (sort_key_of a)) ys"
  shows "sorted_wrt (\<lambda>a b. tuple_le (sort_key_of b) (sort_key_of a)) (insort_desc x ys)"
  using assms
proof (induction ys)
  case Nil
  then show ?case by simp
next
  case (Cons y ys)
  show ?case
  proof (cases "tuple_le (sort_key_of y) (sort_key_of x)")
    case True
    have "\<forall>z \<in> set ys. tuple_le (sort_key_of z) (sort_key_of x)"
      using Cons.prems True by (auto intro: tuple_le_trans)
    then show ?thesis using True Cons.prems by simp
  next
    case False
    then have "tuple_le (sort_key_of x) (sort_key_of y)" using tuple_le_total by blast
    then show ?thesis using False Cons by auto
  qed
qed

lemma distinct_map_insort_desc:
  "distinct (map f (insort_desc x ys)) \<longleftrightarrow> f x \<notin> f ` set ys \<and> distinct (map f ys)"
  by (induction ys) auto

lemma sorted_reverse_Cons: "sorted_reverse (x # xs) = insort_desc x (sorted_reverse xs)"
  by (simp add: sorted_reverse_def)

lemma sorted_reverse_Nil [simp]: "sorted_reverse [] = []"
  by (simp add: sorted_reverse_def)

lemma set_sorted_reverse [simp]: "set (sorted_reverse xs) = set xs"
  by (induction xs) (simp_all add: sorted_reverse_Cons)

lemma length_sorted_reverse [simp]: "length (sorted_reverse xs) = length xs"
  by (induction xs) (simp_all add: sorted_reverse_Cons)

lemma distinct_map_sorted_reverse [simp]:
  "distinct (map f (sorted_reverse xs)) \<longleftrightarrow> distinct (map f xs)"
  by (induction xs) (simp_all add: sorted_reverse_Cons distinct_map_insort_desc)

lemma sorted_sorted_reverse:
  "sorted_wrt (\<lambda>a b. tuple_le (sort_key_of b) (sort_key_of a)) (sorted_reverse xs)"
  by (induction xs) (simp_all add: sorted_reverse_Cons sorted_insort_desc)

lemma extend_fields [simp]:
  "student_id (score_entry.extend e \<lparr>rank = i\<rparr>) = student_id e"
  "sort_key_of (score_entry.extend e \<lparr>rank = i\<rparr>) = sort_key_of e"
  "rank (score_entry.extend e \<lparr>rank = i\<rparr>) = i"
  "total_points (score_entry.extend e \<lparr>rank = i\<rparr>) = total_points e"
  "correct_count (score_entry.extend e \<lparr>rank = i\<rparr>) = correct_count e"
  "answered_count (score_entry.extend e \<lparr>rank = i\<rparr>) = answered_count e"
  "percent_correct (score_entry.extend e \<lparr>rank = i\<rparr>) = percent_correct e"
  "participation (score_entry.extend e \<lparr>rank = i\<rparr>) = participation e"
  by (cases e; simp add: score_entry.defs sort_key_of_def)+

lemma length_add_ranks [simp]: "length (add_ranks i es) = length es"
  by (induction es arbitrary: i) simp_all

lemma map_student_id_add_ranks [simp]: "map student_id (add_ranks i es) = map student_id es"
  by (induction es arbitrary: i) simp_all

lemma map_key_add_ranks [simp]: "map sort_key_of (add_ranks i es) = map sort_key_of es"
  by (induction es arbitrary: i) simp_all

lemma map_rank_add_ranks: "map rank (add_ranks i es) = [i..i + int (length es) - 1]"
proof (induction es arbitrary: i)
  case Nil
  then show ?case by simp
next
  case (Cons e es)
  have "[i..i + int (length (e # es)) - 1] = i # [i + 1..i + int (length (e # es)) - 1]"
    by (subst upto_rec1) simp_all
  then show ?case using Cons[of "i + 1"] by (simp add: algebra_simps)
qed

lemma dict_set_fresh: "k \<notin> fst ` set ps \<Longrightarrow> dict_set k v ps = ps @ [(k, v)]"
  by (induction ps) auto

lemma score_participant_student_id:
  "score_participant d session n all_answers p = Inr e \<Longrightarrow> student_id e = sp_student_id p"
  by (auto simp: score_participant_def Let_def split: sum.splits option.splits prod.splits)

lemma build_scores_keys:
  assumes "build_scores d session n all_answers ps acc = Inr res"
    and "distinct (map fst acc @ map sp_student_id ps)"
    and "\<forall>(k, e) \<in> set acc. student_id e = k"
  shows "map fst res = map fst acc @ map sp_student_id ps \<and> (\<forall>(k, e) \<in> set res. student_id e = k)"
  using assms
proof (induction ps arbitrary: acc)
  case Nil
  then show ?case by simp
next
  case (Cons p ps)
  from Cons.prems(1) obtain entry where
    e: "score_participant d session n all_answers p = Inr entry"
    and r: "build_scores d session n all_answers ps (dict_set (sp_student_id p) entry acc) = Inr res"
    by (auto split: sum.splits)
  have fresh: "sp_student_id p \<notin> fst ` set acc" using Cons.prems(2) by auto
  have ds: "dict_set (sp_student_id p) entry acc = acc @ [(sp_student_id p, entry)]"
    by (rule dict_set_fresh[OF fresh])
  have "map fst res = map fst (acc @ [(sp_student_id p, entry)]) @ map sp_student_id ps
      \<and> (\<forall>(k, e) \<in> set res. student_id e = k)"
  proof (rule Cons.IH)
    show "build_scores d session n all_answers ps (acc @ [(sp_student_id p, entry)]) = Inr res"
      using r ds by simp
    show "distinct (map fst (acc @ [(sp_student_id p, entry)]) @ map sp_student_id ps)"
      using Cons.prems(2) by auto
    show "\<forall>(k, e) \<in> set (acc @ [(sp_student_id p, entry)]). student_id e = k"
      using Cons.prems(3) score_participant_student_id[OF e] by auto
  qed
  then show ?case by simp
qed

lemma score_total:
  assumes "1 \<le> limit" "limit < 2 ^ 1023"
  shows "\<exists>s. calculate_answer_score d a t limit = Inr s"
  using score_shape[OF assms(1), of d a t] below_overflow[OF assms] by auto

lemma score_answers_total:
  assumes "\<forall>a \<in> set answers.
             \<exists>q. answer_question d a = Some q \<and> 1 \<le> time_limit q \<and> time_limit q < 2 ^ 1023"
  shows "\<exists>r. score_answers d session answers acc = Inr r"
  using assms
proof (induction answers arbitrary: acc)
  case Nil
  then show ?case by simp
next
  case (Cons a answers)
  obtain points correct where acc: "acc = (points, correct)" by (cases acc)
  from Cons.prems obtain q where q: "answer_question d a = Some q"
    and l: "1 \<le> time_limit q" "time_limit q < 2 ^ 1023"
    by auto
  from score_total[OF l, of d a "question_start session"]
  obtain s where s: "calculate_answer_score d a (question_start session) (time_limit q) = Inr s"
    by blast
  from Cons.prems have "\<forall>a \<in> set answers.
      \<exists>q. answer_question d a = Some q \<and> 1 \<le> time_limit q \<and> time_limit q < 2 ^ 1023"
    by simp
  from Cons.IH[OF this] show ?case by (simp add: acc q s)
qed

lemma score_participant_total:
  assumes "\<forall>a \<in> set all_answers.
             \<exists>q. answer_question d a = Some q \<and> 1 \<le> time_limit q \<and> time_limit q < 2 ^ 1023"
    and "participant_student d p \<noteq> None"
  shows "\<exists>e. score_participant d session n all_answers p = Inr e"
proof -
  have "\<forall>a \<in> set (filter (\<lambda>a. sa_student_id a = sp_student_id p) all_answers).
          \<exists>q. answer_question d a = Some q \<and> 1 \<le> time_limit q \<and> time_limit q < 2 ^ 1023"
    using assms(1) by simp
  from score_answers_total[OF this, of session "(0, 0)"] assms(2)
  show ?thesis by (auto simp: score_participant_def Let_def split: prod.splits)
qed

lemma build_scores_total:
  assumes "\<forall>a \<in> set all_answers.
             \<exists>q. answer_question d a = Some q \<and> 1 \<le> time_limit q \<and> time_limit q < 2 ^ 1023"
    and "\<forall>p \<in> set ps. participant_student d p \<noteq> None"
  shows "\<exists>res. build_scores d session n all_answers ps acc = Inr res"
  using assms(2)
proof (induction ps arbitrary: acc)
  case Nil
  then show ?case by simp
next
  case (Cons p ps)
  then have "participant_student d p \<noteq> None" by simp
  from score_participant_total[OF assms(1) this, of session n]
  obtain e where e: "score_participant d session n all_answers p = Inr e" by blast
  from Cons have "\<forall>p \<in> set ps. participant_student d p \<noteq> None" by simp
  from Cons.IH[OF this] show ?case by (simp add: e)
qed

text \<open>What the foreign keys give to the ORM relationships.\<close>

lemma find_row:
  assumes "k \<in> set (map key xs)"
  shows "\<exists>x \<in> set xs. find (\<lambda>y. key y = k) xs = Some x"
  using assms by (induction xs) auto

lemma answer_question_row:
  assumes "sa_question_id a \<in> set (map q_id (questions d))"
  shows "\<exists>q \<in> set (questions d). answer_question d a = Some q"
  unfolding answer_question_def by (rule find_row[OF assms])

lemma participant_student_row:
  assumes "sp_student_id p \<in> set (map u_id (users d))"
  shows "participant_student d p \<noteq> None"
  using find_row[OF assms] by (auto simp: participant_student_def)

lemma quiz_questions_empty:
  "get_questions_by_quiz d quiz = [] \<longleftrightarrow> (\<forall>q \<in> set (questions d). q_quiz_id q \<noteq> quiz)"
proof -
  have "get_questions_by_quiz d quiz = []
      \<longleftrightarrow> set (filter (\<lambda>q. q_quiz_id q = quiz) (questions d)) = {}"
    unfolding get_questions_by_quiz_def by (metis set_empty set_sort)
  then show ?thesis by auto
qed

lemma leaderboard_empty_quiz:
  assumes "\<forall>q \<in> set (questions d). q_quiz_id q \<noteq> qs_quiz_id session"
  shows "calculate_leaderboard d session = Inr []"
  using assms by (simp add: calculate_leaderboard_def quiz_questions_empty[symmetric])

lemma leaderboard_total:
  assumes "\<forall>q \<in> set (questions d). 1 \<le> time_limit q \<and> time_limit q < 2 ^ 1023"
    and "\<forall>a \<in> set (student_answers d).
           sa_session_id a = qs_id session \<longrightarrow> sa_question_id a \<in> set (map q_id (questions d))"
    and "\<forall>p \<in> set (session_participants d).
           sp_session_id p = qs_id session \<longrightarrow> sp_student_id p \<in> set (map u_id (users d))"
  shows "\<exists>lb. calculate_leaderboard d session = Inr lb"
proof -
  have a: "\<forall>a \<in> set (get_answers_by_session d (qs_id session)).
      \<exists>q. answer_question d a = Some q \<and> 1 \<le> time_limit q \<and> time_limit q < 2 ^ 1023"
  proof
    fix a
    assume "a \<in> set (get_answers_by_session d (qs_id session))"
    then have "sa_question_id a \<in> set (map q_id (questions d))"
      using assms(2) by (simp add: get_answers_by_session_def)
    from answer_question_row[OF this] assms(1)
    show "\<exists>q. answer_question d a = Some q \<and> 1 \<le> time_limit q \<and> time_limit q < 2 ^ 1023"
      by blast
  qed
  have p: "\<forall>p \<in> set (get_participants_by_session d (qs_id session)).
      participant_student d p \<noteq> None"
    using assms(3) by (simp add: get_participants_by_session_def participant_student_row)
  from build_scores_total[OF a p, of session
      "int (length (get_questions_by_quiz d (qs_quiz_id session)))" "[]"]
  show ?thesis by (auto simp: calculate_leaderboard_def Let_def)
qed

lemma tuple_le_keys:
  "tuple_le (sort_key_of b) (sort_key_of a)
     \<longleftrightarrow> total_points b < total_points a
         \<or> (total_points b = total_points a
            \<and> (case percent_correct b of PInt i \<Rightarrow> of_int i | PFloat r \<Rightarrow> r)
                \<le> (case percent_correct a of PInt i \<Rightarrow> of_int i | PFloat r \<Rightarrow> r))"
  by (cases "percent_correct a"; cases "percent_correct b") (simp_all add: sort_key_of_def)

lemma sorted_add_ranks:
  assumes "sorted_wrt (\<lambda>a b. tuple_le (sort_key_of b) (sort_key_of a)) es"
  shows "sorted_wrt (\<lambda>a b. tuple_le (sort_key_of b) (sort_key_of a)) (add_ranks i es)"
proof -
  from assms have "sorted_wrt (\<lambda>a b. tuple_le b a) (map sort_key_of es)"
    unfolding sorted_wrt_map .
  then have "sorted_wrt (\<lambda>a b. tuple_le b a) (map sort_key_of (add_ranks i es))"
    by (simp only: map_key_add_ranks)
  then show ?thesis unfolding sorted_wrt_map .
qed

lemma leaderboard_shape:
  assumes "calculate_leaderboard d session = Inr lb"
    and "\<exists>q \<in> set (questions d). q_quiz_id q = qs_quiz_id session"
    and "distinct (map sp_student_id
           (filter (\<lambda>p. sp_session_id p = qs_id session) (session_participants d)))"
  shows "sorted_wrt (\<lambda>a b. total_points b < total_points a
           \<or> (total_points b = total_points a
              \<and> (case percent_correct b of PInt i \<Rightarrow> of_int i | PFloat r \<Rightarrow> r)
                  \<le> (case percent_correct a of PInt i \<Rightarrow> of_int i | PFloat r \<Rightarrow> r))) lb"
    and "map rank lb = [1..int (length lb)]"
    and "length lb
           = length (filter (\<lambda>p. sp_session_id p = qs_id session) (session_participants d))"
    and "distinct (map student_id lb)"
    and "set (map student_id lb)
           = set (map sp_student_id
               (filter (\<lambda>p. sp_session_id p = qs_id session) (session_participants d)))"
proof -
  let ?ps = "filter (\<lambda>p. sp_session_id p = qs_id session) (session_participants d)"
  have ps: "get_participants_by_session d (qs_id session) = ?ps"
    by (simp add: get_participants_by_session_def)
  have ne: "get_questions_by_quiz d (qs_quiz_id session) \<noteq> []"
    using assms(2) by (simp add: quiz_questions_empty)
  from assms(1) ne obtain res where
    b: "build_scores d session (int (length (get_questions_by_quiz d (qs_quiz_id session))))
          (get_answers_by_session d (qs_id session)) ?ps [] = Inr res"
    and lb: "lb = add_ranks 1 (sorted_reverse (map snd res))"
    by (auto simp: calculate_leaderboard_def Let_def ps split: sum.splits)
  from build_scores_keys[OF b] assms(3)
  have keys: "map fst res = map sp_student_id ?ps" and ids: "\<forall>(k, e) \<in> set res. student_id e = k"
    by auto
  have sid: "map student_id (map snd res) = map sp_student_id ?ps"
  proof -
    have "map student_id (map snd res) = map fst res" using ids by (induction res) auto
    then show ?thesis by (simp add: keys)
  qed
  have len: "length res = length ?ps" using keys by (metis length_map)
  have "sorted_wrt (\<lambda>a b. tuple_le (sort_key_of b) (sort_key_of a)) (sorted_reverse (map snd res))"
    by (rule sorted_sorted_reverse)
  then have "sorted_wrt (\<lambda>a b. tuple_le (sort_key_of b) (sort_key_of a)) lb"
    unfolding lb by (rule sorted_add_ranks)
  then show "sorted_wrt (\<lambda>a b. total_points b < total_points a
           \<or> (total_points b = total_points a
              \<and> (case percent_correct b of PInt i \<Rightarrow> of_int i | PFloat r \<Rightarrow> r)
                  \<le> (case percent_correct a of PInt i \<Rightarrow> of_int i | PFloat r \<Rightarrow> r))) lb"
    unfolding tuple_le_keys .
  show l: "length lb = length ?ps" by (simp add: lb len)
  show "map rank lb = [1..int (length lb)]"
    unfolding l by (simp add: lb map_rank_add_ranks len)
  have "distinct (map student_id (map snd res))" using sid assms(3) by simp
  then show "distinct (map student_id lb)" by (simp add: lb del: map_map)
  have "set (map student_id (sorted_reverse (map snd res))) = set (map student_id (map snd res))"
    by (simp del: map_map)
  then show "set (map student_id lb) = set (map sp_student_id ?ps)"
    by (simp add: lb sid del: map_map)
qed
section \<open>Claims about the leaderboard\<close>

text \<open>
  The class room of the example.  Session 51 has the participants bob, ann and cy (in the
  order of the table) and the questions 31 and 32.  Bob has 970 points with one of two
  answers correct, ann has 970 points with her only answer correct, cy has no answer.
\<close>

lemma three_second_score:
  assumes "answered_correctly d a" "submitted_at a = 3000000"
  shows "calculate_answer_score d a 0 30 = Inr 970"
proof -
  have "elapsed a 0 30 = elapsed example_answer 0 30"
    by (simp add: elapsed_def assms(2) example_answer_def)
  then have "elapsed a 0 30 = 3" by (simp only: example_elapsed)
  then show ?thesis
    using score_correct[OF assms(1), of 30 0] by (simp add: score_spec_def example_penalty)
qed

lemma class_session: "qs_id example_session = 51" "qs_quiz_id example_session = 81"
  "question_start example_session = 0"
  by (simp_all add: example_session_def question_start_def)

lemma class_participants:
  "filter (\<lambda>p. sp_session_id p = 51) (session_participants example_class_db)
     = [\<lparr>sp_id = 61, sp_session_id = 51, sp_student_id = 22, joined_at = - 1000000\<rparr>,
        \<lparr>sp_id = 63, sp_session_id = 51, sp_student_id = 21, joined_at = - 800000\<rparr>,
        \<lparr>sp_id = 64, sp_session_id = 51, sp_student_id = 23, joined_at = - 700000\<rparr>]"
  by (simp add: example_class_db_def)

lemma class_questions:
  "get_questions_by_quiz example_class_db 81
     = [\<lparr>q_id = 31, q_quiz_id = 81, question_order = 1, time_limit = 30\<rparr>,
        \<lparr>q_id = 32, q_quiz_id = 81, question_order = 2, time_limit = 30\<rparr>]"
  by (simp add: get_questions_by_quiz_def example_class_db_def)

lemma class_answers:
  "filter (\<lambda>a. sa_session_id a = 51) (student_answers example_class_db)
     = [example_bob_answer, example_answer, example_bob_wrong_answer]"
  by (simp add: example_class_db_def example_answer_def example_bob_answer_def
      example_bob_wrong_answer_def example_dee_answer_def)

lemma class_answer_questions:
  "answer_question example_class_db example_answer
     = Some \<lparr>q_id = 31, q_quiz_id = 81, question_order = 1, time_limit = 30\<rparr>"
  "answer_question example_class_db example_bob_answer
     = Some \<lparr>q_id = 31, q_quiz_id = 81, question_order = 1, time_limit = 30\<rparr>"
  "answer_question example_class_db example_bob_wrong_answer
     = Some \<lparr>q_id = 32, q_quiz_id = 81, question_order = 2, time_limit = 30\<rparr>"
  by (simp_all add: answer_question_def example_class_db_def example_answer_def
      example_bob_answer_def example_bob_wrong_answer_def)

lemma class_correct:
  "answered_correctly example_class_db example_answer"
  "answered_correctly example_class_db example_bob_answer"
  "\<not> answered_correctly example_class_db example_bob_wrong_answer"
  by (simp_all add: answered_correctly_def selected_option_def example_class_db_def
      example_answer_def example_bob_answer_def example_bob_wrong_answer_def)

lemma class_scores:
  "calculate_answer_score example_class_db example_answer 0 30 = Inr 970"
  "calculate_answer_score example_class_db example_bob_answer 0 30 = Inr 970"
  "calculate_answer_score example_class_db example_bob_wrong_answer 0 30 = Inr 0"
proof -
  show "calculate_answer_score example_class_db example_answer 0 30 = Inr 970"
    by (rule three_second_score[OF class_correct(1)]) (simp add: example_answer_def)
  show "calculate_answer_score example_class_db example_bob_answer 0 30 = Inr 970"
    by (rule three_second_score[OF class_correct(2)]) (simp add: example_bob_answer_def)
  show "calculate_answer_score example_class_db example_bob_wrong_answer 0 30 = Inr 0"
    by (rule score_incorrect[OF class_correct(3)])
qed

lemma class_students:
  "sa_student_id example_answer = 21" "sa_student_id example_bob_answer = 22"
  "sa_student_id example_bob_wrong_answer = 22"
  by (simp_all add: example_answer_def example_bob_answer_def example_bob_wrong_answer_def)

lemma class_users:
  "participant_student example_class_db
     \<lparr>sp_id = 61, sp_session_id = 51, sp_student_id = 22, joined_at = - 1000000\<rparr>
     = Some \<lparr>u_id = 22, username = ''bob''\<rparr>"
  "participant_student example_class_db
     \<lparr>sp_id = 63, sp_session_id = 51, sp_student_id = 21, joined_at = - 800000\<rparr>
     = Some \<lparr>u_id = 21, username = ''ann''\<rparr>"
  "participant_student example_class_db
     \<lparr>sp_id = 64, sp_session_id = 51, sp_student_id = 23, joined_at = - 700000\<rparr>
     = Some \<lparr>u_id = 23, username = ''cy''\<rparr>"
  by (simp_all add: participant_student_def example_class_db_def)

lemma example_percent:
  "py_round1 (percent_of 1 2) = PFloat 50" "py_round1 (percent_of 1 1) = PFloat 100"
  "py_round1 (percent_of 0 1) = PFloat 0" "py_round1 (percent_of 0 0) = PInt 0"
  by code_simp+

lemma example_participation: "str_int 0 = ''0''" "str_int 1 = ''1''" "str_int 2 = ''2''"
  by code_simp+

lemma class_score_answers:
  "score_answers example_class_db example_session [example_bob_answer, example_bob_wrong_answer]
     (0, 0) = Inr (970, 1)"
  "score_answers example_class_db example_session [example_answer] (0, 0) = Inr (970, 1)"
  by (simp_all add: class_answer_questions class_session class_scores class_correct)

lemma class_entries:
  "score_participant example_class_db example_session 2
     [example_bob_answer, example_answer, example_bob_wrong_answer]
     \<lparr>sp_id = 61, sp_session_id = 51, sp_student_id = 22, joined_at = - 1000000\<rparr> =
     Inr \<lparr>student_id = 22, student_name = ''bob'', total_points = 970, correct_count = 1,
          total_questions = 2, answered_count = 2, percent_correct = PFloat 50,
          participation = ''2/2''\<rparr>"
  "score_participant example_class_db example_session 2
     [example_bob_answer, example_answer, example_bob_wrong_answer]
     \<lparr>sp_id = 63, sp_session_id = 51, sp_student_id = 21, joined_at = - 800000\<rparr> =
     Inr \<lparr>student_id = 21, student_name = ''ann'', total_points = 970, correct_count = 1,
          total_questions = 2, answered_count = 1, percent_correct = PFloat 100,
          participation = ''1/2''\<rparr>"
  "score_participant example_class_db example_session 2
     [example_bob_answer, example_answer, example_bob_wrong_answer]
     \<lparr>sp_id = 64, sp_session_id = 51, sp_student_id = 23, joined_at = - 700000\<rparr> =
     Inr \<lparr>student_id = 23, student_name = ''cy'', total_points = 0, correct_count = 0,
          total_questions = 2, answered_count = 0, percent_correct = PInt 0,
          participation = ''0/2''\<rparr>"
proof -
  let ?all = "[example_bob_answer, example_answer, example_bob_wrong_answer]"
  have f: "filter (\<lambda>a. sa_student_id a
             = sp_student_id \<lparr>sp_id = 61, sp_session_id = 51, sp_student_id = 22,
                              joined_at = - 1000000\<rparr>) ?all
           = [example_bob_answer, example_bob_wrong_answer]"
    "filter (\<lambda>a. sa_student_id a
             = sp_student_id \<lparr>sp_id = 63, sp_session_id = 51, sp_student_id = 21,
                              joined_at = - 800000\<rparr>) ?all
           = [example_answer]"
    "filter (\<lambda>a. sa_student_id a
             = sp_student_id \<lparr>sp_id = 64, sp_session_id = 51, sp_student_id = 23,
                              joined_at = - 700000\<rparr>) ?all
           = []"
    by (simp_all add: class_students)
  show "score_participant example_class_db example_session 2 ?all
     \<lparr>sp_id = 61, sp_session_id = 51, sp_student_id = 22, joined_at = - 1000000\<rparr> =
     Inr \<lparr>student_id = 22, student_name = ''bob'', total_points = 970, correct_count = 1,
          total_questions = 2, answered_count = 2, percent_correct = PFloat 50,
          participation = ''2/2''\<rparr>"
    unfolding score_participant_def Let_def f class_score_answers class_users
    by (simp add: example_percent example_participation)
  show "score_participant example_class_db example_session 2 ?all
     \<lparr>sp_id = 63, sp_session_id = 51, sp_student_id = 21, joined_at = - 800000\<rparr> =
     Inr \<lparr>student_id = 21, student_name = ''ann'', total_points = 970, correct_count = 1,
          total_questions = 2, answered_count = 1, percent_correct = PFloat 100,
          participation = ''1/2''\<rparr>"
    unfolding score_participant_def Let_def f class_score_answers class_users
    by (simp add: example_percent example_participation)
  show "score_participant example_class_db example_session 2 ?all
     \<lparr>sp_id = 64, sp_session_id = 51, sp_student_id = 23, joined_at = - 700000\<rparr> =
     Inr \<lparr>student_id = 23, student_name = ''cy'', total_points = 0, correct_count = 0,
          total_questions = 2, answered_count = 0, percent_correct = PInt 0,
          participation = ''0/2''\<rparr>"
    unfolding score_participant_def Let_def f class_users
    by (simp add: example_percent example_participation)
qed

lemma class_sorted:
  "sorted_reverse
     [\<lparr>student_id = 22, student_name = ''bob'', total_points = 970, correct_count = 1,
       total_questions = 2, answered_count = 2, percent_correct = PFloat 50,
       participation = ''2/2''\<rparr>,
      \<lparr>student_id = 21, student_name = ''ann'', total_points = 970, correct_count = 1,
       total_questions = 2, answered_count = 1, percent_correct = PFloat 100,
       participation = ''1/2''\<rparr>,
      \<lparr>student_id = 23, student_name = ''cy'', total_points = 0, correct_count = 0,
       total_questions = 2, answered_count = 0, percent_correct = PInt 0,
       participation = ''0/2''\<rparr>]
   = [\<lparr>student_id = 21, student_name = ''ann'', total_points = 970, correct_count = 1,
       total_questions = 2, answered_count = 1, percent_correct = PFloat 100,
       participation = ''1/2''\<rparr>,
      \<lparr>student_id = 22, student_name = ''bob'', total_points = 970, correct_count = 1,
       total_questions = 2, answered_count = 2, percent_correct = PFloat 50,
       participation = ''2/2''\<rparr>,
      \<lparr>student_id = 23, student_name = ''cy'', total_points = 0, correct_count = 0,
       total_questions = 2, answered_count = 0, percent_correct = PInt 0,
       participation = ''0/2''\<rparr>]"
  by (simp add: sorted_reverse_def sort_key_of_def)

lemma class_leaderboard:
  "calculate_leaderboard example_class_db example_session =
     Inr [\<lparr>student_id = 21, student_name = ''ann'', total_points = 970, correct_count = 1,
           total_questions = 2, answered_count = 1, percent_correct = PFloat 100,
           participation = ''1/2'', rank = 1\<rparr>,
          \<lparr>student_id = 22, student_name = ''bob'', total_points = 970, correct_count = 1,
           total_questions = 2, answered_count = 2, percent_correct = PFloat 50,
           participation = ''2/2'', rank = 2\<rparr>,
          \<lparr>student_id = 23, student_name = ''cy'', total_points = 0, correct_count = 0,
           total_questions = 2, answered_count = 0, percent_correct = PInt 0,
           participation = ''0/2'', rank = 3\<rparr>]"
proof -
  have b: "build_scores example_class_db example_session 2
      [example_bob_answer, example_answer, example_bob_wrong_answer]
      [\<lparr>sp_id = 61, sp_session_id = 51, sp_student_id = 22, joined_at = - 1000000\<rparr>,
        \<lparr>sp_id = 63, sp_session_id = 51, sp_student_id = 21, joined_at = - 800000\<rparr>,
        \<lparr>sp_id = 64, sp_session_id = 51, sp_student_id = 23, joined_at = - 700000\<rparr>] []
    = Inr [(22, \<lparr>student_id = 22, student_name = ''bob'', total_points = 970, correct_count = 1,
                 total_questions = 2, answered_count = 2, percent_correct = PFloat 50,
                 participation = ''2/2''\<rparr>),
           (21, \<lparr>student_id = 21, student_name = ''ann'', total_points = 970, correct_count = 1,
                 total_questions = 2, answered_count = 1, percent_correct = PFloat 100,
                 participation = ''1/2''\<rparr>),
           (23, \<lparr>student_id = 23, student_name = ''cy'', total_points = 0, correct_count = 0,
                 total_questions = 2, answered_count = 0, percent_correct = PInt 0,
                 participation = ''0/2''\<rparr>)]"
    by (simp add: class_entries)
  have n: "int (length (get_questions_by_quiz example_class_db 81)) = 2"
    by (simp add: class_questions)
  show ?thesis
    unfolding calculate_leaderboard_def Let_def get_participants_by_session_def
      get_answers_by_session_def class_session class_participants n class_answers b
    by (simp add: class_sorted score_entry.defs leaderboard_entry.defs)
qed

text \<open>
  Claim C4.  A session whose quiz has no row in \<open>questions\<close> gets the empty leaderboard.
  Let the quiz have at least one question and let \<open>session_participants\<close> hold at most
  one row per student for the session, \<open>N\<close> rows in all.  Then the leaderboard is computed
  whenever the rows it reads are intact (every time limit is at least one second, every
  answer of the session refers to a question and every participant of the session to a
  user), and any leaderboard returned is in non-increasing lexicographic order of
  \<open>(total_points, percent_correct)\<close> (an entry never has fewer points than a later one,
  and with equal points never a smaller percentage, an int and a float being compared by
  value), has \<open>N\<close> entries whose student ids are pairwise different and are exactly the
  student ids of the participant rows, and carries the ranks \<open>1, 2, ..., N\<close> in this order.
\<close>

theorem calculate_leaderboard_ranking:
  "((\<forall>q \<in> set (questions d). q_quiz_id q \<noteq> qs_quiz_id session) \<longrightarrow>
      calculate_leaderboard d session = Inr [])
   \<and> ((\<exists>q \<in> set (questions d). q_quiz_id q = qs_quiz_id session)
       \<and> distinct (map sp_student_id
            (filter (\<lambda>p. sp_session_id p = qs_id session) (session_participants d))) \<longrightarrow>
        ((\<forall>q \<in> set (questions d). 1 \<le> time_limit q \<and> time_limit q < 2 ^ 1023)
         \<and> (\<forall>a \<in> set (student_answers d).
               sa_session_id a = qs_id session \<longrightarrow>
               sa_question_id a \<in> set (map q_id (questions d)))
         \<and> (\<forall>p \<in> set (session_participants d).
               sp_session_id p = qs_id session \<longrightarrow>
               sp_student_id p \<in> set (map u_id (users d))) \<longrightarrow>
         (\<exists>lb. calculate_leaderboard d session = Inr lb))
      \<and> (\<forall>lb. calculate_leaderboard d session = Inr lb \<longrightarrow>
            sorted_wrt (\<lambda>a b. total_points b < total_points a
               \<or> (total_points b = total_points a
                  \<and> (case percent_correct b of PInt i \<Rightarrow> of_int i | PFloat r \<Rightarrow> r)
                      \<le> (case percent_correct a of PInt i \<Rightarrow> of_int i | PFloat r \<Rightarrow> r))) lb
          \<and> map rank lb = [1..int (length lb)]
          \<and> length lb
              = length (filter (\<lambda>p. sp_session_id p = qs_id session) (session_participants d))
          \<and> distinct (map student_id lb)
          \<and> set (map student_id lb)
              = set (map sp_student_id
                  (filter (\<lambda>p. sp_session_id p = qs_id session) (session_participants d)))))"
proof (intro conjI impI allI)
  assume "\<forall>q \<in> set (questions d). q_quiz_id q \<noteq> qs_quiz_id session"
  then show "calculate_leaderboard d session = Inr []" by (rule leaderboard_empty_quiz)
next
  assume "(\<forall>q \<in> set (questions d). 1 \<le> time_limit q \<and> time_limit q < 2 ^ 1023)
         \<and> (\<forall>a \<in> set (student_answers d).
               sa_session_id a = qs_id session \<longrightarrow>
               sa_question_id a \<in> set (map q_id (questions d)))
         \<and> (\<forall>p \<in> set (session_participants d).
               sp_session_id p = qs_id session \<longrightarrow>
               sp_student_id p \<in> set (map u_id (users d)))"
  then show "\<exists>lb. calculate_leaderboard d session = Inr lb"
    by (intro leaderboard_total) blast+
next
  fix lb
  assume h: "(\<exists>q \<in> set (questions d). q_quiz_id q = qs_quiz_id session)
       \<and> distinct (map sp_student_id
            (filter (\<lambda>p. sp_session_id p = qs_id session) (session_participants d)))"
    and lb: "calculate_leaderboard d session = Inr lb"
  from h have q: "\<exists>q \<in> set (questions d). q_quiz_id q = qs_quiz_id session"
    and p: "distinct (map sp_student_id
            (filter (\<lambda>p. sp_session_id p = qs_id session) (session_participants d)))"
    by simp_all
  note s = leaderboard_shape[OF lb q p]
  show "sorted_wrt (\<lambda>a b. total_points b < total_points a
               \<or> (total_points b = total_points a
                  \<and> (case percent_correct b of PInt i \<Rightarrow> of_int i | PFloat r \<Rightarrow> r)
                      \<le> (case percent_correct a of PInt i \<Rightarrow> of_int i | PFloat r \<Rightarrow> r))) lb"
    by (rule s(1))
  show "map rank lb = [1..int (length lb)]" by (rule s(2))
  show "length lb
      = length (filter (\<lambda>p. sp_session_id p = qs_id session) (session_participants d))"
    by (rule s(3))
  show "distinct (map student_id lb)" by (rule s(4))
  show "set (map student_id lb)
      = set (map sp_student_id
          (filter (\<lambda>p. sp_session_id p = qs_id session) (session_participants d)))"
    by (rule s(5))
qed

theorem calculate_leaderboard_ranking_witness:
  "(\<exists>q \<in> set (questions example_class_db). q_quiz_id q = qs_quiz_id example_session)
   \<and> map sp_student_id
        (filter (\<lambda>p. sp_session_id p = qs_id example_session)
           (session_participants example_class_db)) = [22, 21, 23]
   \<and> map time_limit (questions example_class_db) = [20, 30, 30]
   \<and> set (map sa_question_id
          (filter (\<lambda>a. sa_session_id a = qs_id example_session)
             (student_answers example_class_db)))
       \<subseteq> set (map q_id (questions example_class_db))
   \<and> set (map sp_student_id
          (filter (\<lambda>p. sp_session_id p = qs_id example_session)
             (session_participants example_class_db)))
       \<subseteq> set (map u_id (users example_class_db))
   \<and> (\<exists>lb. calculate_leaderboard example_class_db example_session = Inr lb
          \<and> map student_id lb = [21, 22, 23]
          \<and> map total_points lb = [970, 970, 0]
          \<and> map percent_correct lb = [PFloat 100, PFloat 50, PInt 0]
          \<and> map rank lb = [1, 2, 3]
          \<and> sorted_wrt (\<lambda>a b. total_points b < total_points a
               \<or> (total_points b = total_points a
                  \<and> (case percent_correct b of PInt i \<Rightarrow> of_int i | PFloat r \<Rightarrow> r)
                      \<le> (case percent_correct a of PInt i \<Rightarrow> of_int i | PFloat r \<Rightarrow> r))) lb
          \<and> set (map student_id lb)
              = set (map sp_student_id
                  (filter (\<lambda>p. sp_session_id p = qs_id example_session)
                     (session_participants example_class_db))))
   \<and> filter (\<lambda>q. q_quiz_id q = qs_quiz_id (example_second_session\<lparr>qs_quiz_id := 83\<rparr>))
        (questions example_final_db) = []
   \<and> calculate_leaderboard example_final_db (example_second_session\<lparr>qs_quiz_id := 83\<rparr>) = Inr []"
proof -
  have q: "\<exists>q \<in> set (questions example_class_db). q_quiz_id q = qs_quiz_id example_session"
    by (simp add: example_class_db_def class_session)
  have ps: "map sp_student_id
        (filter (\<lambda>p. sp_session_id p = qs_id example_session)
           (session_participants example_class_db)) = [22, 21, 23]"
    by (simp add: class_session class_participants)
  then have p: "distinct (map sp_student_id
        (filter (\<lambda>p. sp_session_id p = qs_id example_session)
           (session_participants example_class_db)))"
    by simp
  have l': "map time_limit (questions example_class_db) = [20, 30, 30]"
    by (simp add: example_class_db_def)
  have "\<forall>t \<in> set (map time_limit (questions example_class_db)). 1 \<le> t \<and> t < 2 ^ 1023"
    unfolding l' by simp
  then have l: "\<forall>q \<in> set (questions example_class_db). 1 \<le> time_limit q \<and> time_limit q < 2 ^ 1023"
    by simp
  have a': "set (map sa_question_id
          (filter (\<lambda>a. sa_session_id a = qs_id example_session)
             (student_answers example_class_db)))
       \<subseteq> set (map q_id (questions example_class_db))"
    unfolding class_session class_answers
    by (simp add: example_class_db_def example_answer_def example_bob_answer_def
        example_bob_wrong_answer_def)
  then have a: "\<forall>a \<in> set (student_answers example_class_db).
         sa_session_id a = qs_id example_session \<longrightarrow>
         sa_question_id a \<in> set (map q_id (questions example_class_db))"
    by auto
  have u': "set (map sp_student_id
          (filter (\<lambda>p. sp_session_id p = qs_id example_session)
             (session_participants example_class_db)))
       \<subseteq> set (map u_id (users example_class_db))"
    unfolding ps by (simp add: example_class_db_def)
  then have u: "\<forall>p \<in> set (session_participants example_class_db).
         sp_session_id p = qs_id example_session \<longrightarrow>
         sp_student_id p \<in> set (map u_id (users example_class_db))"
    by auto
  have e': "filter (\<lambda>q. q_quiz_id q = qs_quiz_id (example_second_session\<lparr>qs_quiz_id := 83\<rparr>))
        (questions example_final_db) = []"
    by (simp add: example_final_db_def example_class_db_def)
  then have e: "\<forall>q \<in> set (questions example_final_db).
         q_quiz_id q \<noteq> qs_quiz_id (example_second_session\<lparr>qs_quiz_id := 83\<rparr>)"
    by (simp add: filter_empty_conv)
  note t = calculate_leaderboard_ranking[of example_class_db example_session]
  from t q p l a u obtain lb where lb: "calculate_leaderboard example_class_db example_session = Inr lb"
    by blast
  from t q p lb have s: "sorted_wrt (\<lambda>a b. total_points b < total_points a
               \<or> (total_points b = total_points a
                  \<and> (case percent_correct b of PInt i \<Rightarrow> of_int i | PFloat r \<Rightarrow> r)
                      \<le> (case percent_correct a of PInt i \<Rightarrow> of_int i | PFloat r \<Rightarrow> r))) lb"
    and r: "map rank lb = [1..int (length lb)]"
    and m: "set (map student_id lb)
              = set (map sp_student_id
                  (filter (\<lambda>p. sp_session_id p = qs_id example_session)
                     (session_participants example_class_db)))"
    by blast+
  from lb have v: "map student_id lb = [21, 22, 23]" "map total_points lb = [970, 970, 0]"
    "map percent_correct lb = [PFloat 100, PFloat 50, PInt 0]" "length lb = 3"
    unfolding class_leaderboard by auto
  from r have r3: "map rank lb = [1, 2, 3]" unfolding v(4) by (simp add: upto_rec1)
  have z: "calculate_leaderboard example_final_db (example_second_session\<lparr>qs_quiz_id := 83\<rparr>)
      = Inr []"
    using calculate_leaderboard_ranking[of example_final_db
        "example_second_session\<lparr>qs_quiz_id := 83\<rparr>"] e
    by blast
  have ex: "\<exists>lb. calculate_leaderboard example_class_db example_session = Inr lb
          \<and> map student_id lb = [21, 22, 23]
          \<and> map total_points lb = [970, 970, 0]
          \<and> map percent_correct lb = [PFloat 100, PFloat 50, PInt 0]
          \<and> map rank lb = [1, 2, 3]
          \<and> sorted_wrt (\<lambda>a b. total_points b < total_points a
               \<or> (total_points b = total_points a
                  \<and> (case percent_correct b of PInt i \<Rightarrow> of_int i | PFloat r \<Rightarrow> r)
                      \<le> (case percent_correct a of PInt i \<Rightarrow> of_int i | PFloat r \<Rightarrow> r))) lb
          \<and> set (map student_id lb)
              = set (map sp_student_id
                  (filter (\<lambda>p. sp_session_id p = qs_id example_session)
                     (session_participants example_class_db)))"
    by (rule exI[of _ lb]) (intro conjI lb v(1) v(2) v(3) r3 s m)
  show ?thesis by (intro conjI q ps l' a' u' ex e' z)
qed

section \<open>Answers without a selected option\<close>




lemma rne_zero [simp]: "rne 0 = 0"
  using rne_of_int[of 0] by simp











































end
